theory Spec2Isabelle
  imports Complex_Main "HOL-Library.DAList"
begin

section \<open>Python values, exceptions and dictionaries\<close>

text \<open>
  Every exception the modelled code can raise is a value. A computation that may raise
  returns \<open>py_error + 'a\<close>, with \<open>Inl\<close> for the exception.
\<close>

datatype py_error =
  UnicodeDecodeError | ValueError | IndexError | KeyError | ZeroDivisionError | StatisticsError

text \<open>Sequencing: the first exception raised ends the computation.\<close>

definition py_bind :: "py_error + 'a \<Rightarrow> ('a \<Rightarrow> py_error + 'b) \<Rightarrow> py_error + 'b" where
  "py_bind m f = (case m of Inl e \<Rightarrow> Inl e | Inr v \<Rightarrow> f v)"

text \<open>
  A Python \<open>dict\<close> keeps its entries in insertion order and has no two entries with the
  same key: it is an association list with distinct keys. Storing under a key that is
  present replaces the value in place, storing under a new key appends the entry.
\<close>

type_synonym ('k, 'v) dict = "('k, 'v) alist"

definition dict_items :: "('k, 'v) dict \<Rightarrow> ('k \<times> 'v) list" where
  "dict_items d = DAList.impl_of d"

definition dict_keys :: "('k, 'v) dict \<Rightarrow> 'k list" where
  "dict_keys d = map fst (dict_items d)"

definition dict_values :: "('k, 'v) dict \<Rightarrow> 'v list" where
  "dict_values d = map snd (dict_items d)"

definition dict_len :: "('k, 'v) dict \<Rightarrow> nat" where
  "dict_len d = length (dict_items d)"

definition dict_contains :: "('k, 'v) dict \<Rightarrow> 'k \<Rightarrow> bool" where
  "dict_contains d k = (DAList.lookup d k \<noteq> None)"

definition dict_get :: "('k, 'v) dict \<Rightarrow> 'k \<Rightarrow> py_error + 'v" where
  "dict_get d k = (case DAList.lookup d k of None \<Rightarrow> Inl KeyError | Some v \<Rightarrow> Inr v)"

definition dict_set :: "('k, 'v) dict \<Rightarrow> 'k \<Rightarrow> 'v \<Rightarrow> ('k, 'v) dict" where
  "dict_set d k v = DAList.update k v d"

text \<open>
  Python's floats are IEEE doubles. In the metrics (loss, percentages, gaps, averages,
  rate) they are modelled by the real numbers: the operations are exact there.
  \<open>a / b\<close> raises on a zero divisor, \<open>int(x)\<close> of a float truncates towards zero,
  \<open>max\<close> of an empty sequence raises.
\<close>

definition py_truediv :: "real \<Rightarrow> real \<Rightarrow> py_error + real" where
  "py_truediv a b = (if b = 0 then Inl ZeroDivisionError else Inr (a / b))"

definition int_of_float :: "real \<Rightarrow> int" where
  "int_of_float x = (if 0 \<le> x then \<lfloor>x\<rfloor> else \<lceil>x\<rceil>)"

text \<open>
  Where a float is truncated to an integer, rounding can change the result: the
  expected count \<open>int(30 * (1000 / delay))\<close> and the timestamp
  \<open>int(time.time() * 1000)\<close> are modelled with the rounding of their operations.
  \<open>binary64\<close> rounds a real number to the nearest double (53 significant bits, the
  least exponent that of the subnormal numbers), a tie to the even significand, as the
  division of two integers and the product of two floats do. The range of the doubles
  is not modelled: the quotient is at most 1000 in absolute value, and the clock is far
  from the largest double.
\<close>

definition round_half_even :: "real \<Rightarrow> int" where
  "round_half_even x =
     (let f = \<lfloor>x\<rfloor>; r = x - of_int f
      in if r < 1 / 2 then f else if 1 / 2 < r then f + 1 else if even f then f else f + 1)"

definition binary64 :: "real \<Rightarrow> real" where
  "binary64 x =
     (if x = 0 then 0
      else let e = max \<lfloor>log 2 \<bar>x\<bar>\<rfloor> (- 1022);
               eps = 2 powr real_of_int (e - 52)
           in of_int (round_half_even (x / eps)) * eps)"

definition float_truediv :: "real \<Rightarrow> real \<Rightarrow> py_error + real" where
  "float_truediv a b = (if b = 0 then Inl ZeroDivisionError else Inr (binary64 (a / b)))"

definition py_max :: "int list \<Rightarrow> py_error + int" where
  "py_max xs = (case xs of [] \<Rightarrow> Inl ValueError | x # rest \<Rightarrow> Inr (fold max rest x))"

text \<open>
  \<open>statistics.mean\<close> raises on no data, \<open>statistics.stdev\<close> on fewer than two data
  points; the latter is the square root of the sample variance (denominator \<open>n - 1\<close>).
\<close>

definition statistics_mean :: "real list \<Rightarrow> py_error + real" where
  "statistics_mean xs =
     (if xs = [] then Inl StatisticsError else Inr (sum_list xs / real (length xs)))"

definition statistics_stdev :: "real list \<Rightarrow> py_error + real" where
  "statistics_stdev xs =
     (if length xs < 2 then Inl StatisticsError
      else let mu = sum_list xs / real (length xs)
           in Inr (sqrt (sum_list (map (\<lambda>x. (x - mu) ^ 2) xs) / real (length xs - 1))))"

section \<open>The analyzer: state\<close>

text \<open>
  \<open>current_test\<close> is a dictionary with the five fixed keys \<open>qos\<close>, \<open>delay\<close>,
  \<open>messagesize\<close>, \<open>instancecount\<close> and \<open>sub_qos\<close>; the fields carry the prefix \<open>ct_\<close>
  to keep them apart from the publisher's attributes of the same names.
\<close>

record current_test =
  ct_qos :: int
  ct_delay :: int
  ct_messagesize :: int
  ct_instancecount :: int
  ct_sub_qos :: int

datatype sys_value = Number real | Text string

record result =
  res_qos :: int
  res_delay :: int
  res_messagesize :: int
  res_instancecount :: int
  res_sub_qos :: int
  message_rate :: real
  avg_message_loss :: real
  avg_out_of_order :: real
  avg_duplicates :: real
  avg_mean_gap :: real
  avg_std_dev_gap :: real
  res_sys_metrics :: "(string, sys_value) dict"

record analyzer =
  current_test :: current_test
  messages_received :: "(int, (int, int) dict) dict"
  test_start_time :: real
  test_end_time :: real
  sys_metrics :: "(string, sys_value) dict"
  results :: "result list"

section \<open>The analyzer: \<open>calculate_results\<close>\<close>

text \<open>The five lists of \<open>per_publisher_metrics\<close>, one value per publisher each.\<close>

record per_publisher_metrics =
  message_loss_vals :: "real list"
  out_of_order_vals :: "real list"
  duplicates_vals :: "real list"
  mean_gap_vals :: "real list"
  std_dev_gap_vals :: "real list"

definition no_metrics :: per_publisher_metrics where
  "no_metrics = \<lparr>message_loss_vals = [], out_of_order_vals = [], duplicates_vals = [],
                 mean_gap_vals = [], std_dev_gap_vals = []\<rparr>"

text \<open>
  \<open>expected_messages\<close>: the highest counter plus one for a delay of 0, else
  \<open>int(30 * (1000 / delay))\<close>.
\<close>

definition expected_messages :: "int \<Rightarrow> int list \<Rightarrow> py_error + int" where
  "expected_messages delay sorted_counters =
     (if delay = 0 then
        (case py_max sorted_counters of
           Inl e \<Rightarrow> Inl e
         | Inr max_counter \<Rightarrow> Inr (max_counter + 1))
      else
        (case float_truediv 1000 (real_of_int delay) of
           Inl e \<Rightarrow> Inl e
         | Inr q \<Rightarrow> Inr (int_of_float (binary64 (30 * q)))))"

definition message_loss :: "nat \<Rightarrow> int \<Rightarrow> py_error + real" where
  "message_loss actual_messages expected_messages' =
     (if expected_messages' > 0 then
        (case py_truediv (real actual_messages) (real_of_int expected_messages') of
           Inl e \<Rightarrow> Inl e
         | Inr q \<Rightarrow> Inr (100 * (1 - q)))
      else Inr 0)"

text \<open>
  The out-of-order scan: \<open>prev_counter\<close> starts as \<open>None\<close>, and a counter below the
  previous one of the iteration is counted.
\<close>

fun out_of_order_loop :: "int list \<Rightarrow> nat \<Rightarrow> int option \<Rightarrow> nat" where
  "out_of_order_loop [] out_of_order_count prev_counter = out_of_order_count"
| "out_of_order_loop (counter # rest) out_of_order_count prev_counter =
     out_of_order_loop rest
       (case prev_counter of
          None \<Rightarrow> out_of_order_count
        | Some p \<Rightarrow> if counter < p then out_of_order_count + 1 else out_of_order_count)
       (Some counter)"

definition out_of_order_percentage :: "(int, int) dict \<Rightarrow> nat \<Rightarrow> py_error + real" where
  "out_of_order_percentage messages actual_messages =
     (let out_of_order_count = out_of_order_loop (sort (dict_keys messages)) 0 None
      in if actual_messages > 0
         then py_truediv (100 * real out_of_order_count) (real actual_messages)
         else Inr 0)"

definition duplicate_count :: "int list \<Rightarrow> int" where
  "duplicate_count sorted_counters =
     int (length sorted_counters) - int (card (set sorted_counters))"

definition duplicate_percentage :: "int list \<Rightarrow> nat \<Rightarrow> py_error + real" where
  "duplicate_percentage sorted_counters actual_messages =
     (if actual_messages > 0
      then py_truediv (100 * real_of_int (duplicate_count sorted_counters)) (real actual_messages)
      else Inr 0)"

text \<open>
  The gap loop visits the neighbours \<open>sorted_counters[i - 1]\<close>, \<open>sorted_counters[i]\<close>
  for \<open>i\<close> from 1; a pair whose second counter is the first plus one contributes the
  difference of the two timestamps.
\<close>

fun gaps_loop :: "(int, int) dict \<Rightarrow> int list \<Rightarrow> py_error + int list" where
  "gaps_loop messages (prev # cur # rest) =
     (if cur = prev + 1 then
        (case dict_get messages cur of
           Inl e \<Rightarrow> Inl e
         | Inr current_timestamp \<Rightarrow>
            (case dict_get messages prev of
               Inl e \<Rightarrow> Inl e
             | Inr prev_timestamp \<Rightarrow>
                (case gaps_loop messages (cur # rest) of
                   Inl e \<Rightarrow> Inl e
                 | Inr gaps \<Rightarrow> Inr ((current_timestamp - prev_timestamp) # gaps))))
      else gaps_loop messages (cur # rest))"
| "gaps_loop messages [c] = Inr []"
| "gaps_loop messages [] = Inr []"

definition mean_gap :: "int list \<Rightarrow> py_error + real" where
  "mean_gap gaps = (if gaps \<noteq> [] then statistics_mean (map real_of_int gaps) else Inr 0)"

definition std_dev_gap :: "int list \<Rightarrow> py_error + real" where
  "std_dev_gap gaps =
     (if gaps \<noteq> [] then
        (if length gaps > 1 then statistics_stdev (map real_of_int gaps) else Inr 0)
      else Inr 0)"

text \<open>
  The values the loop over the publishers computes for one publisher with counters, in
  the order of the code: loss, out-of-order, duplicates, mean gap, standard deviation
  of the gaps.
\<close>

record publisher_metrics =
  pm_message_loss :: real
  pm_out_of_order :: real
  pm_duplicates :: real
  pm_mean_gap :: real
  pm_std_dev_gap :: real

definition publisher_values :: "int \<Rightarrow> (int, int) dict \<Rightarrow> py_error + publisher_metrics" where
  "publisher_values delay messages =
     (let sorted_counters = sort (dict_keys messages) in
      py_bind (expected_messages delay sorted_counters) (\<lambda>expected.
      let actual_messages = dict_len messages in
      py_bind (message_loss actual_messages expected) (\<lambda>loss.
      py_bind (out_of_order_percentage messages actual_messages) (\<lambda>ooo.
      py_bind (duplicate_percentage sorted_counters actual_messages) (\<lambda>dup.
      py_bind (gaps_loop messages sorted_counters) (\<lambda>gaps.
      py_bind (mean_gap gaps) (\<lambda>mg.
      py_bind (std_dev_gap gaps) (\<lambda>sd.
      Inr \<lparr>pm_message_loss = loss, pm_out_of_order = ooo, pm_duplicates = dup,
           pm_mean_gap = mg, pm_std_dev_gap = sd\<rparr>))))))))"

text \<open>
  One round of the loop: a publisher without counters is skipped (\<open>continue\<close>), any
  other appends its values to the five lists.
\<close>

definition publisher_step ::
  "int \<Rightarrow> (int, int) dict \<Rightarrow> per_publisher_metrics \<Rightarrow> py_error + per_publisher_metrics" where
  "publisher_step delay messages ppm =
     (if sort (dict_keys messages) = [] then Inr ppm
      else
        py_bind (publisher_values delay messages) (\<lambda>v.
        Inr \<lparr>message_loss_vals = message_loss_vals ppm @ [pm_message_loss v],
             out_of_order_vals = out_of_order_vals ppm @ [pm_out_of_order v],
             duplicates_vals = duplicates_vals ppm @ [pm_duplicates v],
             mean_gap_vals = mean_gap_vals ppm @ [pm_mean_gap v],
             std_dev_gap_vals = std_dev_gap_vals ppm @ [pm_std_dev_gap v]\<rparr>))"

fun publisher_loop ::
  "int \<Rightarrow> (int \<times> (int, int) dict) list \<Rightarrow> per_publisher_metrics
     \<Rightarrow> py_error + per_publisher_metrics" where
  "publisher_loop delay [] ppm = Inr ppm"
| "publisher_loop delay ((instance_id, messages) # rest) ppm =
     (case publisher_step delay messages ppm of
        Inl e \<Rightarrow> Inl e
      | Inr ppm' \<Rightarrow> publisher_loop delay rest ppm')"

text \<open>\<open>statistics.mean(xs) if xs else 0\<close>, the form of each of the five averages.\<close>

definition average :: "real list \<Rightarrow> py_error + real" where
  "average xs = (if xs \<noteq> [] then statistics_mean xs else Inr 0)"

definition total_messages :: "(int, (int, int) dict) dict \<Rightarrow> nat" where
  "total_messages received = sum_list (map dict_len (dict_values received))"

definition message_rate_of :: "analyzer \<Rightarrow> py_error + real" where
  "message_rate_of a =
     (let test_duration = test_end_time a - test_start_time a
      in if test_duration > 0
         then py_truediv (real (total_messages (messages_received a))) test_duration
         else Inr 0)"

definition calculate_results :: "analyzer \<Rightarrow> py_error + analyzer" where
  "calculate_results a =
     py_bind (message_rate_of a) (\<lambda>rate.
     py_bind (publisher_loop (ct_delay (current_test a)) (dict_items (messages_received a))
                no_metrics) (\<lambda>ppm.
     py_bind (average (message_loss_vals ppm)) (\<lambda>avg_loss.
     py_bind (average (out_of_order_vals ppm)) (\<lambda>avg_ooo.
     py_bind (average (duplicates_vals ppm)) (\<lambda>avg_dup.
     py_bind (average (mean_gap_vals ppm)) (\<lambda>avg_mg.
     py_bind (average (std_dev_gap_vals ppm)) (\<lambda>avg_sd.
     Inr (a\<lparr>results := results a @
            [\<lparr>res_qos = ct_qos (current_test a),
              res_delay = ct_delay (current_test a),
              res_messagesize = ct_messagesize (current_test a),
              res_instancecount = ct_instancecount (current_test a),
              res_sub_qos = ct_sub_qos (current_test a),
              message_rate = rate,
              avg_message_loss = avg_loss,
              avg_out_of_order = avg_ooo,
              avg_duplicates = avg_dup,
              avg_mean_gap = avg_mg,
              avg_std_dev_gap = avg_sd,
              res_sys_metrics = sys_metrics a\<rparr>]\<rparr>))))))))"

section \<open>Text\<close>

text \<open>
  A message payload is a sequence of bytes. Text (Python's \<open>str\<close>) is represented by its
  UTF-8 bytes: \<open>startswith\<close> and \<open>split\<close> at an ASCII character give the same result
  on the bytes as on the code points. \<open>bytes.decode()\<close> accepts exactly the well-formed
  UTF-8 byte sequences and raises on any other.
\<close>

definition cont_byte :: "nat \<Rightarrow> bool" where
  "cont_byte b = (0x80 \<le> b \<and> b \<le> 0xBF)"

fun utf8_valid :: "nat list \<Rightarrow> bool" where
  "utf8_valid [] = True"
| "utf8_valid (b # bs) =
     (if b < 0x80 then utf8_valid bs
      else if 0xC2 \<le> b \<and> b \<le> 0xDF then
        (case bs of
           c1 # r \<Rightarrow> cont_byte c1 \<and> utf8_valid r
         | _ \<Rightarrow> False)
      else if 0xE0 \<le> b \<and> b \<le> 0xEF then
        (case bs of
           c1 # c2 # r \<Rightarrow>
             (if b = 0xE0 then 0xA0 \<le> c1 \<and> c1 \<le> 0xBF
              else if b = 0xED then 0x80 \<le> c1 \<and> c1 \<le> 0x9F
              else cont_byte c1)
             \<and> cont_byte c2 \<and> utf8_valid r
         | _ \<Rightarrow> False)
      else if 0xF0 \<le> b \<and> b \<le> 0xF4 then
        (case bs of
           c1 # c2 # c3 # r \<Rightarrow>
             (if b = 0xF0 then 0x90 \<le> c1 \<and> c1 \<le> 0xBF
              else if b = 0xF4 then 0x80 \<le> c1 \<and> c1 \<le> 0x8F
              else cont_byte c1)
             \<and> cont_byte c2 \<and> cont_byte c3 \<and> utf8_valid r
         | _ \<Rightarrow> False)
      else False)"

definition decode :: "string \<Rightarrow> py_error + string" where
  "decode bs = (if utf8_valid (map of_char bs) then Inr bs else Inl UnicodeDecodeError)"

definition startswith :: "string \<Rightarrow> string \<Rightarrow> bool" where
  "startswith s p = (take (length p) s = p)"

text \<open>\<open>s.split(c)\<close> and \<open>s.split(c, n)\<close> for a one-character separator.\<close>

fun py_split :: "char \<Rightarrow> string \<Rightarrow> string list" where
  "py_split c [] = ['''']"
| "py_split c (x # xs) =
     (if x = c then [] # py_split c xs
      else (case py_split c xs of
              p # ps \<Rightarrow> (x # p) # ps
            | [] \<Rightarrow> [x] # []))"

fun py_split_max :: "char \<Rightarrow> nat \<Rightarrow> string \<Rightarrow> string list" where
  "py_split_max c 0 s = [s]"
| "py_split_max c (Suc n) [] = ['''']"
| "py_split_max c (Suc n) (x # xs) =
     (if x = c then [] # py_split_max c n xs
      else (case py_split_max c (Suc n) xs of
              p # ps \<Rightarrow> (x # p) # ps
            | [] \<Rightarrow> [x] # []))"

definition list_get :: "'a list \<Rightarrow> nat \<Rightarrow> py_error + 'a" where
  "list_get xs i = (if i < length xs then Inr (xs ! i) else Inl IndexError)"

text \<open>
  \<open>int(s)\<close> and \<open>float(s)\<close> of a text belong to the interpreter: which texts they accept
  (surrounding white space, a sign, underscores, digits outside ASCII, the limit on the
  number of digits) is not decided by this code. The handlers take them as the
  parameters \<open>int_of\<close> and \<open>float_of\<close>, \<open>None\<close> standing for \<open>ValueError\<close>.
\<close>

definition py_int :: "(string \<Rightarrow> int option) \<Rightarrow> string \<Rightarrow> py_error + int" where
  "py_int int_of s = (case int_of s of None \<Rightarrow> Inl ValueError | Some i \<Rightarrow> Inr i)"

text \<open>
  \<open>dec_int\<close> reads the plain decimal numerals, an optional minus sign and digits; on
  these every \<open>int\<close> agrees.
\<close>

definition digit_val :: "char \<Rightarrow> nat option" where
  "digit_val c =
     (let n = (of_char c :: nat) in if 48 \<le> n \<and> n \<le> 57 then Some (n - 48) else None)"

fun dec_nat :: "string \<Rightarrow> nat \<Rightarrow> nat option" where
  "dec_nat [] acc = Some acc"
| "dec_nat (c # cs) acc =
     (case digit_val c of None \<Rightarrow> None | Some d \<Rightarrow> dec_nat cs (10 * acc + d))"

definition dec_int :: "string \<Rightarrow> int option" where
  "dec_int s =
     (case s of
        [] \<Rightarrow> None
      | c # cs \<Rightarrow>
          if c = CHR ''-'' then (if cs = [] then None else map_option (\<lambda>n. - int n) (dec_nat cs 0))
          else map_option int (dec_nat s 0))"





section \<open>The analyzer: \<open>on_message\<close>\<close>

record message =
  topic :: string
  payload :: string

text \<open>
  The body of the \<open>try\<close> for a counter message, statement by statement. It returns
  the state at its end and the exception that ended it, if one did.
\<close>

definition counter_message ::
  "(string \<Rightarrow> int option) \<Rightarrow> analyzer \<Rightarrow> string \<Rightarrow> string \<Rightarrow> analyzer \<times> py_error option" where
  "counter_message int_of a topic' payload' =
     (let parts = py_split CHR ''/'' topic' in
      case py_bind (list_get parts 1) (py_int int_of) of
        Inl e \<Rightarrow> (a, Some e)
      | Inr instance_id \<Rightarrow>
     (let message_parts = py_split_max CHR '':'' 2 payload' in
      case py_bind (list_get message_parts 0) (py_int int_of) of
        Inl e \<Rightarrow> (a, Some e)
      | Inr counter \<Rightarrow>
     (case py_bind (list_get message_parts 1) (py_int int_of) of
        Inl e \<Rightarrow> (a, Some e)
      | Inr timestamp \<Rightarrow>
     (let a1 = (if \<not> dict_contains (messages_received a) instance_id
                then a\<lparr>messages_received :=
                         dict_set (messages_received a) instance_id DAList.empty\<rparr>
                else a) in
      case dict_get (messages_received a1) instance_id of
        Inl e \<Rightarrow> (a1, Some e)
      | Inr received \<Rightarrow>
          (a1\<lparr>messages_received :=
                dict_set (messages_received a1) instance_id
                  (dict_set received counter timestamp)\<rparr>, None)))))"

text \<open>
  \<open>Analyzer.on_message\<close> returns the state it leaves and the exception that leaves the handler,
  if any. The payload is decoded before the topic is looked at, outside any \<open>try\<close>. The
  \<open>except Exception\<close> of the counter branch prints and goes on.
\<close>

definition analyzer_on_message ::
  "(string \<Rightarrow> int option) \<Rightarrow> (string \<Rightarrow> real option) \<Rightarrow> analyzer \<Rightarrow> message
     \<Rightarrow> analyzer \<times> py_error option" where
  "analyzer_on_message int_of float_of a msg =
     (case decode (payload msg) of
        Inl e \<Rightarrow> (a, Some e)
      | Inr payload' \<Rightarrow>
          if startswith (topic msg) ''$SYS/'' then
            (a\<lparr>sys_metrics :=
                 dict_set (sys_metrics a) (topic msg)
                   (case float_of payload' of
                      Some payload_num \<Rightarrow> Number payload_num
                    | None \<Rightarrow> Text payload')\<rparr>, None)
          else if startswith (topic msg) ''counter/'' then
            (fst (counter_message int_of a (topic msg) payload'), None)
          else (a, None))"

text \<open>Messages arrive one after the other; an exception that leaves the handler ends the run.\<close>

fun receive_all ::
  "(string \<Rightarrow> int option) \<Rightarrow> (string \<Rightarrow> real option) \<Rightarrow> analyzer \<Rightarrow> message list
     \<Rightarrow> analyzer \<times> py_error option" where
  "receive_all int_of float_of a [] = (a, None)"
| "receive_all int_of float_of a (msg # msgs) =
     (case analyzer_on_message int_of float_of a msg of
        (a', None) \<Rightarrow> receive_all int_of float_of a' msgs
      | (a', Some e) \<Rightarrow> (a', Some e))"

text \<open>The state \<open>__init__\<close> builds, and what \<open>run_test\<close> resets before a run.\<close>

definition init_analyzer :: analyzer where
  "init_analyzer =
     \<lparr>current_test = \<lparr>ct_qos = 0, ct_delay = 0, ct_messagesize = 0, ct_instancecount = 1,
                       ct_sub_qos = 0\<rparr>,
      messages_received = DAList.empty,
      test_start_time = 0,
      test_end_time = 0,
      sys_metrics = DAList.empty,
      results = []\<rparr>"

section \<open>The publisher\<close>

record publisher =
  instance_id :: int
  qos :: int
  delay :: int
  messagesize :: int
  instancecount :: int
  running :: bool












section \<open>Properties of \<open>calculate_results\<close>\<close>

subsection \<open>Each step returns a value\<close>

lemma out_of_order_loop_sorted:
  "sorted (x # xs) \<Longrightarrow> out_of_order_loop xs n (Some x) = n"
  by (induction xs arbitrary: x) auto

lemma out_of_order_loop_sort: "out_of_order_loop (sort xs) 0 None = 0"
proof (cases "sort xs")
  case Nil
  then show ?thesis by simp
next
  case (Cons y ys)
  have "sorted (y # ys)"
    using Cons sorted_sort [of xs] by simp
  then show ?thesis
    using Cons by (simp add: out_of_order_loop_sorted)
qed

lemma out_of_order_percentage_zero: "out_of_order_percentage messages n = Inr 0"
  by (simp add: out_of_order_percentage_def out_of_order_loop_sort py_truediv_def)

lemma distinct_dict_keys: "distinct (dict_keys d)"
  by (simp add: dict_keys_def dict_items_def)

lemma duplicate_count_keys: "duplicate_count (sort (dict_keys d)) = 0"
  by (simp add: duplicate_count_def distinct_card distinct_dict_keys)

lemma duplicate_percentage_zero: "duplicate_percentage (sort (dict_keys d)) n = Inr 0"
  by (simp add: duplicate_percentage_def duplicate_count_keys py_truediv_def)

lemma message_loss_Inr:
  "message_loss n e = Inr (if 0 < e then 100 * (1 - real n / real_of_int e) else 0)"
  by (simp add: message_loss_def py_truediv_def)

lemma py_max_Max:
  assumes "xs \<noteq> []"
  shows "py_max xs = Inr (Max (set xs))"
proof (cases xs)
  case Nil
  then show ?thesis using assms by simp
next
  case (Cons y ys)
  then show ?thesis
    using Max.set_eq_fold [of y ys] by (simp add: py_max_def)
qed

lemma expected_messages_Inr:
  "cs \<noteq> [] \<Longrightarrow> expected_messages d cs =
     Inr (if d = 0 then Max (set cs) + 1
          else int_of_float (binary64 (30 * binary64 (1000 / real_of_int d))))"
  by (simp add: expected_messages_def py_max_Max float_truediv_def)

lemma mean_gap_Inr:
  "mean_gap gs =
     Inr (if gs = [] then 0 else sum_list (map real_of_int gs) / real (length gs))"
  by (simp add: mean_gap_def statistics_mean_def)

lemma std_dev_gap_Inr: "\<exists>v. std_dev_gap gs = Inr v"
  by (simp add: std_dev_gap_def statistics_stdev_def Let_def)

lemma average_Inr: "average xs = Inr (if xs = [] then 0 else sum_list xs / real (length xs))"
  by (simp add: average_def statistics_mean_def)

lemma message_rate_of_Inr:
  "message_rate_of a =
     Inr (if 0 < test_end_time a - test_start_time a
          then real (total_messages (messages_received a)) / (test_end_time a - test_start_time a)
          else 0)"
  by (simp add: message_rate_of_def py_truediv_def Let_def)

lemma dict_get_key: "k \<in> set (dict_keys d) \<Longrightarrow> \<exists>v. dict_get d k = Inr v"
  unfolding dict_get_def dict_keys_def dict_items_def DAList.lookup.rep_eq
  by (cases "map_of (DAList.impl_of d) k") (auto simp: map_of_eq_None_iff image_iff)

lemma gaps_loop_Inr:
  "set cs \<subseteq> set (dict_keys d) \<Longrightarrow> \<exists>gs. gaps_loop d cs = Inr gs"
proof (induction d cs rule: gaps_loop.induct)
  case (1 messages prev cur rest)
  obtain tc where tc: "dict_get messages cur = Inr tc"
    using 1(3) dict_get_key [of cur messages] by auto
  obtain tp where tp: "dict_get messages prev = Inr tp"
    using 1(3) dict_get_key [of prev messages] by auto
  show ?case
  proof (cases "cur = prev + 1")
    case True
    then obtain gs where "gaps_loop messages (cur # rest) = Inr gs"
      using 1(1) [OF True tc tp] 1(3) by auto
    then show ?thesis using True tc tp by simp
  next
    case False
    then show ?thesis using 1(2) 1(3) by simp
  qed
qed simp_all


lemma publisher_values_Inr:
  assumes "dict_keys m \<noteq> []"
  shows "\<exists>v. publisher_values d m = Inr v"
proof -
  have ne: "sort (dict_keys m) \<noteq> []"
    using assms by (metis length_sort length_0_conv)
  obtain gs where gs: "gaps_loop m (sort (dict_keys m)) = Inr gs"
    using gaps_loop_Inr [of "sort (dict_keys m)" m] by auto
  obtain sd where sd: "std_dev_gap gs = Inr sd"
    using std_dev_gap_Inr by blast
  show ?thesis
    by (simp add: publisher_values_def Let_def py_bind_def expected_messages_Inr [OF ne]
        message_loss_Inr out_of_order_percentage_zero duplicate_percentage_zero gs
        mean_gap_Inr sd)
qed





lemma publisher_values_out_of_order:
  "publisher_values d m = Inr v \<Longrightarrow> pm_out_of_order v = 0"
  by (auto simp: publisher_values_def Let_def py_bind_def out_of_order_percentage_zero
      split: sum.splits)

lemma publisher_loop_vals:
  "\<exists>vals. map (publisher_values d) (filter (\<lambda>m. dict_keys m \<noteq> []) (map snd items)) = map Inr vals
     \<and> publisher_loop d items ppm =
       Inr \<lparr>message_loss_vals = message_loss_vals ppm @ map pm_message_loss vals,
            out_of_order_vals = out_of_order_vals ppm @ map pm_out_of_order vals,
            duplicates_vals = duplicates_vals ppm @ map pm_duplicates vals,
            mean_gap_vals = mean_gap_vals ppm @ map pm_mean_gap vals,
            std_dev_gap_vals = std_dev_gap_vals ppm @ map pm_std_dev_gap vals\<rparr>"
proof (induction items arbitrary: ppm)
  case Nil
  show ?case by simp
next
  case (Cons it items)
  obtain i m where it: "it = (i, m)" by (cases it)
  show ?case
  proof (cases "dict_keys m = []")
    case True
    then have step: "publisher_step d m ppm = Inr ppm"
      by (simp add: publisher_step_def)
    from Cons [of ppm] obtain vals where
      "map (publisher_values d) (filter (\<lambda>m. dict_keys m \<noteq> []) (map snd items)) = map Inr vals"
      and "publisher_loop d items ppm =
       Inr \<lparr>message_loss_vals = message_loss_vals ppm @ map pm_message_loss vals,
            out_of_order_vals = out_of_order_vals ppm @ map pm_out_of_order vals,
            duplicates_vals = duplicates_vals ppm @ map pm_duplicates vals,
            mean_gap_vals = mean_gap_vals ppm @ map pm_mean_gap vals,
            std_dev_gap_vals = std_dev_gap_vals ppm @ map pm_std_dev_gap vals\<rparr>"
      by blast
    then show ?thesis
      using True it step by (intro exI [of _ vals]) simp
  next
    case False
    then obtain v where v: "publisher_values d m = Inr v"
      using publisher_values_Inr by blast
    define ppm1 where "ppm1 =
      \<lparr>message_loss_vals = message_loss_vals ppm @ [pm_message_loss v],
       out_of_order_vals = out_of_order_vals ppm @ [pm_out_of_order v],
       duplicates_vals = duplicates_vals ppm @ [pm_duplicates v],
       mean_gap_vals = mean_gap_vals ppm @ [pm_mean_gap v],
       std_dev_gap_vals = std_dev_gap_vals ppm @ [pm_std_dev_gap v]\<rparr>"
    have ne: "sort (dict_keys m) \<noteq> []"
      using False by (metis length_sort length_0_conv)
    have step: "publisher_step d m ppm = Inr ppm1"
      using ne v by (simp add: publisher_step_def py_bind_def ppm1_def)
    from Cons [of ppm1] obtain vals where
      "map (publisher_values d) (filter (\<lambda>m. dict_keys m \<noteq> []) (map snd items)) = map Inr vals"
      and "publisher_loop d items ppm1 =
       Inr \<lparr>message_loss_vals = message_loss_vals ppm1 @ map pm_message_loss vals,
            out_of_order_vals = out_of_order_vals ppm1 @ map pm_out_of_order vals,
            duplicates_vals = duplicates_vals ppm1 @ map pm_duplicates vals,
            mean_gap_vals = mean_gap_vals ppm1 @ map pm_mean_gap vals,
            std_dev_gap_vals = std_dev_gap_vals ppm1 @ map pm_std_dev_gap vals\<rparr>"
      by blast
    then show ?thesis
      using False it step v by (intro exI [of _ "v # vals"]) (simp add: ppm1_def)
  qed
qed

lemma calculate_results_vals:
  "\<exists>vals. map (publisher_values (ct_delay (current_test a)))
             (filter (\<lambda>m. dict_keys m \<noteq> []) (dict_values (messages_received a))) = map Inr vals
     \<and> calculate_results a =
       Inr (a\<lparr>results := results a @
            [\<lparr>res_qos = ct_qos (current_test a),
              res_delay = ct_delay (current_test a),
              res_messagesize = ct_messagesize (current_test a),
              res_instancecount = ct_instancecount (current_test a),
              res_sub_qos = ct_sub_qos (current_test a),
              message_rate =
                (if 0 < test_end_time a - test_start_time a
                 then real (total_messages (messages_received a))
                        / (test_end_time a - test_start_time a)
                 else 0),
              avg_message_loss =
                (if vals = [] then 0 else sum_list (map pm_message_loss vals) / real (length vals)),
              avg_out_of_order =
                (if vals = [] then 0 else sum_list (map pm_out_of_order vals) / real (length vals)),
              avg_duplicates =
                (if vals = [] then 0 else sum_list (map pm_duplicates vals) / real (length vals)),
              avg_mean_gap =
                (if vals = [] then 0 else sum_list (map pm_mean_gap vals) / real (length vals)),
              avg_std_dev_gap =
                (if vals = [] then 0 else sum_list (map pm_std_dev_gap vals) / real (length vals)),
              res_sys_metrics = sys_metrics a\<rparr>]\<rparr>)"
proof -
  obtain vals where
    v: "map (publisher_values (ct_delay (current_test a)))
          (filter (\<lambda>m. dict_keys m \<noteq> []) (map snd (dict_items (messages_received a))))
        = map Inr vals"
    and l: "publisher_loop (ct_delay (current_test a)) (dict_items (messages_received a)) no_metrics =
       Inr \<lparr>message_loss_vals = message_loss_vals no_metrics @ map pm_message_loss vals,
            out_of_order_vals = out_of_order_vals no_metrics @ map pm_out_of_order vals,
            duplicates_vals = duplicates_vals no_metrics @ map pm_duplicates vals,
            mean_gap_vals = mean_gap_vals no_metrics @ map pm_mean_gap vals,
            std_dev_gap_vals = std_dev_gap_vals no_metrics @ map pm_std_dev_gap vals\<rparr>"
    using publisher_loop_vals by blast
  show ?thesis
    using v l
    by (intro exI [of _ vals])
       (simp add: calculate_results_def py_bind_def message_rate_of_Inr average_Inr
         no_metrics_def dict_values_def)
qed

subsection \<open>The out-of-order metric\<close>

lemma sum_out_of_order_zero:
  assumes "map (publisher_values d) ms = map Inr vals"
  shows "sum_list (map pm_out_of_order vals) = 0"
  using assms
proof (induction ms arbitrary: vals)
  case Nil
  then show ?case by simp
next
  case (Cons m ms)
  then obtain v vs where "vals = v # vs" "publisher_values d m = Inr v"
    "map (publisher_values d) ms = map Inr vs"
    by (cases vals) auto
  then show ?case
    using Cons.IH [of vs] publisher_values_out_of_order [of d m v] by simp
qed

text \<open>
  Claim C3. For every observed stream and every publisher the out-of-order metric is 0:
  the scan goes through the counters in sorted order and counts a counter only when
  the one before it in that order is greater, so it counts nothing. The percentage of
  every publisher is 0, whatever count of messages it is taken of, and so is the
  average \<open>avg_out_of_order\<close> of the record that \<open>calculate_results\<close> appends.
\<close>

theorem out_of_order_always_zero:
  "out_of_order_loop (sort (dict_keys messages)) 0 None = 0
   \<and> out_of_order_percentage messages n = Inr 0
   \<and> (\<exists>r. calculate_results a = Inr (a\<lparr>results := results a @ [r]\<rparr>) \<and> avg_out_of_order r = 0)"
proof -
  obtain vals r where
    v: "map (publisher_values (ct_delay (current_test a)))
          (filter (\<lambda>m. dict_keys m \<noteq> []) (dict_values (messages_received a))) = map Inr vals"
    and c: "calculate_results a = Inr (a\<lparr>results := results a @ [r]\<rparr>)"
    and r: "avg_out_of_order r =
      (if vals = [] then 0 else sum_list (map pm_out_of_order vals) / real (length vals))"
    using calculate_results_vals [of a] by force
  have "avg_out_of_order r = 0"
    using r sum_out_of_order_zero [OF v] by simp
  then show ?thesis
    using c by (auto simp: out_of_order_loop_sort out_of_order_percentage_zero)
qed

subsection \<open>No division by zero\<close>


subsection \<open>The gaps\<close>

lemma dict_get_the:
  assumes "k \<in> set (dict_keys d)"
  shows "dict_get d k = Inr (the (DAList.lookup d k))"
proof -
  obtain v where "dict_get d k = Inr v"
    using dict_get_key [OF assms] by blast
  then show ?thesis
    by (auto simp: dict_get_def split: option.splits)
qed

lemma gaps_loop_consecutive:
  assumes "sorted cs" and "distinct cs" and "set cs \<subseteq> set (dict_keys d)"
  shows "gaps_loop d cs =
    Inr (map (\<lambda>k. the (DAList.lookup d (k + 1)) - the (DAList.lookup d k))
          (filter (\<lambda>k. k + 1 \<in> set cs) cs))"
  using assms
proof (induction d cs rule: gaps_loop.induct)
  case (1 messages prev cur rest)
  have lt: "prev < cur" and rest: "\<forall>x \<in> set rest. cur < x"
    using 1(3) 1(4) by (auto simp: less_le)
  have tail: "sorted (cur # rest)" "distinct (cur # rest)"
    "set (cur # rest) \<subseteq> set (dict_keys messages)"
    using 1(3) 1(4) 1(5) by auto
  have head: "prev + 1 \<in> set (prev # cur # rest) \<longleftrightarrow> cur = prev + 1"
    using lt rest by auto
  have same: "filter (\<lambda>k. k + 1 \<in> set (prev # cur # rest)) (cur # rest)
      = filter (\<lambda>k. k + 1 \<in> set (cur # rest)) (cur # rest)"
    using lt rest by (intro filter_cong) auto
  have gc: "dict_get messages cur = Inr (the (DAList.lookup messages cur))"
    and gp: "dict_get messages prev = Inr (the (DAList.lookup messages prev))"
    using 1(5) by (auto intro: dict_get_the)
  show ?case
  proof (cases "cur = prev + 1")
    case True
    have "gaps_loop messages (cur # rest) =
      Inr (map (\<lambda>k. the (DAList.lookup messages (k + 1)) - the (DAList.lookup messages k))
            (filter (\<lambda>k. k + 1 \<in> set (cur # rest)) (cur # rest)))"
      using 1(1) [OF True gc gp tail] .
    then show ?thesis
      using True gc gp head same by simp
  next
    case False
    have "gaps_loop messages (cur # rest) =
      Inr (map (\<lambda>k. the (DAList.lookup messages (k + 1)) - the (DAList.lookup messages k))
            (filter (\<lambda>k. k + 1 \<in> set (cur # rest)) (cur # rest)))"
      using 1(2) [OF False tail] .
    then show ?thesis
      using False head same by simp
  qed
qed simp_all

lemma gaps_loop_sorted_keys:
  "gaps_loop d (sort (dict_keys d)) =
    Inr (map (\<lambda>k. the (DAList.lookup d (k + 1)) - the (DAList.lookup d k))
          (filter (\<lambda>k. k + 1 \<in> set (dict_keys d)) (sort (dict_keys d))))"
  using gaps_loop_consecutive [of "sort (dict_keys d)" d]
  by (simp add: distinct_dict_keys)


lemma dict_items_empty: "dict_items DAList.empty = []"
  by (simp add: dict_items_def DAList.empty.rep_eq)

lemma dict_items_set: "dict_items (dict_set d k v) = AList.update k v (dict_items d)"
  by (simp add: dict_items_def dict_set_def DAList.update.rep_eq)

lemma dict_get_items:
  "dict_get d k = (case map_of (dict_items d) k of None \<Rightarrow> Inl KeyError | Some v \<Rightarrow> Inr v)"
  by (simp add: dict_get_def dict_items_def DAList.lookup.rep_eq)

lemma mean_gap_example: "mean_gap [100, 150] = Inr 125"
  by (simp add: mean_gap_def statistics_mean_def)

lemma std_dev_gap_example:
  "std_dev_gap [100, 150] = Inr (sqrt (((100 - 125)\<^sup>2 + (150 - 125)\<^sup>2) / (2 - 1)))"
  by (simp add: std_dev_gap_def statistics_stdev_def Let_def)

lemma std_dev_gap_eq:
  "std_dev_gap gs =
     Inr (if length gs < 2 then 0
          else sqrt (sum_list (map (\<lambda>x. (real_of_int x
                         - sum_list (map real_of_int gs) / real (length gs))\<^sup>2) gs)
                     / real (length gs - 1)))"
  by (cases gs) (auto simp: std_dev_gap_def statistics_stdev_def Let_def comp_def)

lemma gaps_example_1:
  "gaps_loop (dict_set (dict_set (dict_set DAList.empty 0 1000) 1 1100) 2 1250)
     (sort (dict_keys (dict_set (dict_set (dict_set DAList.empty 0 1000) 1 1100) 2 1250)))
   = Inr [100, 150]"
  by (simp add: dict_keys_def dict_items_set dict_items_empty dict_get_items)

lemma gaps_example_2:
  "gaps_loop (dict_set (dict_set DAList.empty 0 1000) 2 1300)
     (sort (dict_keys (dict_set (dict_set DAList.empty 0 1000) 2 1300)))
   = Inr []"
  by (simp add: dict_keys_def dict_items_set dict_items_empty dict_get_items)

lemma pv_example_1:
  "\<exists>v. publisher_values d (dict_set (dict_set (dict_set DAList.empty 0 1000) 1 1100) 2 1250) = Inr v
     \<and> pm_mean_gap v = 125 \<and> pm_std_dev_gap v = sqrt 1250"
proof -
  let ?m = "dict_set (dict_set (dict_set DAList.empty 0 1000) 1 1100) 2 1250"
  have k: "sort (dict_keys ?m) \<noteq> []"
    by (simp add: dict_keys_def dict_items_set dict_items_empty)
  show ?thesis
    using std_dev_gap_example
    by (simp add: publisher_values_def Let_def py_bind_def expected_messages_Inr [OF k]
        message_loss_Inr out_of_order_percentage_zero duplicate_percentage_zero
        gaps_example_1 mean_gap_example)
qed


lemma pv_example_2:
  "\<exists>v. publisher_values d (dict_set (dict_set DAList.empty 0 1000) 2 1300) = Inr v
     \<and> pm_mean_gap v = 0 \<and> pm_std_dev_gap v = 0"
proof -
  let ?m = "dict_set (dict_set DAList.empty 0 1000) 2 1300"
  have k: "sort (dict_keys ?m) \<noteq> []"
    by (simp add: dict_keys_def dict_items_set dict_items_empty)
  show ?thesis
    by (simp add: publisher_values_def Let_def py_bind_def expected_messages_Inr [OF k]
        message_loss_Inr out_of_order_percentage_zero duplicate_percentage_zero
        gaps_example_2 mean_gap_def std_dev_gap_def)
qed

text \<open>
  Claim C4. The gap samples come from the pairs of consecutive counters \<open>k\<close>, \<open>k + 1\<close>
  that are both keys of the observed map, and from no other pair: for every map, the
  samples are the differences of the timestamps recorded for \<open>k + 1\<close> and \<open>k\<close>, for the
  keys \<open>k\<close> in ascending order whose successor is a key too. The mean gap is the
  arithmetic mean of the samples and 0 without samples; the standard deviation is the
  sample form with denominator \<open>n - 1\<close> and 0 for fewer than two samples. The receipts
  \<open>{0: 1000, 1: 1100, 2: 1250}\<close> give the samples \<open>[100, 150]\<close>, the mean 125 and the
  sample standard deviation of \<open>[100, 150]\<close>; the receipts \<open>{0: 1000, 2: 1300}\<close> give no
  sample and the mean 0.
\<close>

theorem gap_samples_of_consecutive_counters:
  "gaps_loop m (sort (dict_keys m)) =
     Inr (map (\<lambda>k. the (DAList.lookup m (k + 1)) - the (DAList.lookup m k))
           (filter (\<lambda>k. k + 1 \<in> set (dict_keys m)) (sort (dict_keys m))))
   \<and> mean_gap gs =
       Inr (if gs = [] then 0 else sum_list (map real_of_int gs) / real (length gs))
   \<and> std_dev_gap gs =
       Inr (if length gs < 2 then 0
            else sqrt (sum_list (map (\<lambda>x. (real_of_int x
                           - sum_list (map real_of_int gs) / real (length gs))\<^sup>2) gs)
                       / real (length gs - 1)))
   \<and> gaps_loop (dict_set (dict_set (dict_set DAList.empty 0 1000) 1 1100) 2 1250)
         (sort (dict_keys (dict_set (dict_set (dict_set DAList.empty 0 1000) 1 1100) 2 1250)))
       = Inr [100, 150]
   \<and> (\<exists>v. publisher_values d (dict_set (dict_set (dict_set DAList.empty 0 1000) 1 1100) 2 1250)
            = Inr v
          \<and> pm_mean_gap v = 125
          \<and> pm_std_dev_gap v = sqrt (((100 - 125)\<^sup>2 + (150 - 125)\<^sup>2) / (2 - 1)))
   \<and> gaps_loop (dict_set (dict_set DAList.empty 0 1000) 2 1300)
         (sort (dict_keys (dict_set (dict_set DAList.empty 0 1000) 2 1300)))
       = Inr []
   \<and> (\<exists>v. publisher_values d (dict_set (dict_set DAList.empty 0 1000) 2 1300) = Inr v
          \<and> pm_mean_gap v = 0 \<and> pm_std_dev_gap v = 0)"
proof -
  have "sqrt (((100 - 125)\<^sup>2 + (150 - 125)\<^sup>2) / (2 - 1)) = sqrt 1250"
    by simp
  then show ?thesis
    using pv_example_1 [of d] pv_example_2 [of d]
    by (simp only: gaps_loop_sorted_keys mean_gap_Inr std_dev_gap_eq gaps_example_1
        gaps_example_2 simp_thms)
qed

subsection \<open>The expected count\<close>

text \<open>
  The rounding of a double changes a positive number by at most one part in \<open>2 ^ 53\<close>
  (or by \<open>2 ^ -1075\<close>, in the subnormal range). For a delay that does not divide
  30000 this keeps \<open>30 * (1000 / delay)\<close> strictly between two integers; for a delay
  above 30000 it keeps it below 1. For each of the 50 divisors of 30000 the two
  roundings are computed.
\<close>

lemma round_half_even_error: "\<bar>of_int (round_half_even x) - x\<bar> \<le> 1 / 2"
  unfolding round_half_even_def Let_def by (auto simp: abs_if) linarith+

lemma round_half_even_nonneg: "0 \<le> x \<Longrightarrow> 0 \<le> round_half_even x"
  unfolding round_half_even_def Let_def by (auto simp: add_nonneg_nonneg)

lemma binary64_nonneg: "0 \<le> x \<Longrightarrow> 0 \<le> binary64 x"
  unfolding binary64_def Let_def by (auto intro!: mult_nonneg_nonneg round_half_even_nonneg)

lemma binary64_error:
  assumes "0 < x"
  shows "\<bar>binary64 x - x\<bar> \<le> x / 2 ^ 53 + 1 / 2 ^ 1075"
proof -
  define e where "e = max \<lfloor>log 2 \<bar>x\<bar>\<rfloor> (- 1022)"
  define eps where "eps = 2 powr real_of_int (e - 52)"
  have eps_pos: "0 < eps" by (simp add: eps_def)
  have fl: "binary64 x = of_int (round_half_even (x / eps)) * eps"
    using assms by (simp add: binary64_def Let_def e_def eps_def)
  have "binary64 x - x = (of_int (round_half_even (x / eps)) - x / eps) * eps"
    using eps_pos by (simp add: fl left_diff_distrib)
  then have "\<bar>binary64 x - x\<bar> = \<bar>of_int (round_half_even (x / eps)) - x / eps\<bar> * eps"
    using eps_pos by (simp add: abs_mult)
  also have "\<dots> \<le> 1 / 2 * eps"
    using round_half_even_error [of "x / eps"] eps_pos by (intro mult_right_mono) auto
  finally have half: "\<bar>binary64 x - x\<bar> \<le> eps / 2" by simp
  show ?thesis
  proof (cases "- 1022 \<le> \<lfloor>log 2 x\<rfloor>")
    case True
    then have e: "e = \<lfloor>log 2 x\<rfloor>" using assms by (simp add: e_def)
    have "2 powr real_of_int \<lfloor>log 2 x\<rfloor> \<le> 2 powr log 2 x"
      by (intro powr_mono) auto
    then have "2 powr real_of_int e \<le> x" using assms e by simp
    moreover have "eps = 2 powr real_of_int e / 2 ^ 52"
      by (simp add: eps_def powr_diff of_int_diff powr_realpow [symmetric])
    ultimately have "eps / 2 \<le> x / 2 ^ 53"
      by (simp add: field_simps)
    moreover have "(0::real) \<le> 1 / 2 ^ 1075"
      by (simp only: zero_le_divide_1_iff zero_le_power zero_le_numeral)
    ultimately show ?thesis using half by linarith
  next
    case False
    then have e: "e = - 1022" using assms by (simp add: e_def)
    have "eps = 1 / 2 ^ 1074"
      unfolding eps_def e using powr_realpow [of 2 1074, symmetric]
      by (simp add: powr_minus field_simps)
    then have "eps / 2 = 1 / 2 ^ 1075" by simp
    moreover have "0 \<le> x / 2 ^ 53" using assms by simp
    ultimately show ?thesis using half by linarith
  qed
qed


lemma two_powr_diff: "2 powr (real a - real n) = 2 ^ a / 2 ^ n"
proof -
  have "2 powr (real a - real n) = 2 powr real a / 2 powr real n"
    by (rule powr_diff)
  then show ?thesis
    by (simp add: powr_realpow)
qed

lemma binary64_eval:
  assumes "2 ^ 52 \<le> x * 2 ^ n" and "x * 2 ^ n < 2 ^ 53" and "n \<le> 1074"
    and "round_half_even (x * 2 ^ n) = m"
  shows "binary64 x = of_int m / 2 ^ n"
proof -
  define P :: real where "P = 2 ^ n"
  have P: "0 < P" by (simp add: P_def)
  have b1: "2 ^ 52 \<le> x * P" and b2: "x * P < 2 ^ 53"
    using assms(1,2) by (simp_all add: P_def)
  have pos: "0 < x"
  proof (rule ccontr)
    assume "\<not> 0 < x"
    then have "x * P \<le> 0" using P by (simp add: mult_le_0_iff)
    moreover have "(0::real) < 2 ^ 52" by simp
    ultimately show False using b1 by linarith
  qed
  have e1: "real_of_int (52 - int n) = real 52 - real n" by simp
  have e2: "real_of_int (52 - int n) + 1 = real 53 - real n" by simp
  have lo: "2 powr real_of_int (52 - int n) \<le> x"
    unfolding e1 two_powr_diff P_def [symmetric]
    using b1 P by (simp only: pos_divide_le_eq)
  have hi: "x < 2 powr (real_of_int (52 - int n) + 1)"
    unfolding e2 two_powr_diff P_def [symmetric]
    using b2 P by (simp only: pos_less_divide_eq)
  have fl: "\<lfloor>log 2 x\<rfloor> = 52 - int n"
    using floor_log_eq_powr_iff [of x 2 "52 - int n"] pos lo hi by simp
  have e: "max \<lfloor>log 2 \<bar>x\<bar>\<rfloor> (- 1022) = 52 - int n"
    using fl pos assms(3) by simp
  have "real_of_int (52 - int n - 52) = real 0 - real n" by simp
  then have eps: "2 powr real_of_int (52 - int n - 52) = 1 / P"
    using two_powr_diff [of 0 n] by (simp only: P_def power_0)
  have "x / (1 / P) = x * P" by simp
  then show ?thesis
    using pos assms(4) unfolding binary64_def Let_def e eps P_def by simp
qed

lemma expected_eval:
  assumes "2 ^ 52 \<le> x * 2 ^ n1" and "x * 2 ^ n1 < 2 ^ 53" and "n1 \<le> 1074"
    and "round_half_even (x * 2 ^ n1) = m1"
    and "2 ^ 52 \<le> 30 * (real_of_int m1 / 2 ^ n1) * 2 ^ n2"
    and "30 * (real_of_int m1 / 2 ^ n1) * 2 ^ n2 < 2 ^ 53" and "n2 \<le> 1074"
    and "round_half_even (30 * (real_of_int m1 / 2 ^ n1) * 2 ^ n2) = m2"
    and "0 \<le> m2" and "\<lfloor>real_of_int m2 / 2 ^ n2\<rfloor> = k"
  shows "int_of_float (binary64 (30 * binary64 x)) = k"
proof -
  have "binary64 x = of_int m1 / 2 ^ n1"
    using assms(1-4) by (rule binary64_eval)
  moreover have "binary64 (30 * (of_int m1 / 2 ^ n1)) = of_int m2 / 2 ^ n2"
    using assms(5-8) by (rule binary64_eval)
  moreover have "0 \<le> real_of_int m2 / 2 ^ n2"
    using assms(9) by simp
  ultimately show ?thesis
    using assms(10) by (simp add: int_of_float_def)
qed

lemma fixed_delay_1:
  "int_of_float (binary64 (30 * binary64 (1000 / real_of_int 1))) = 30000 div 1"
  by (rule expected_eval [where ?n1.0 = 43 and ?m1.0 = 8796093022208000 and ?n2.0 = 38 and ?m2.0 = 8246337208320000])
     (simp_all add: round_half_even_def Let_def)

lemma fixed_delay_2:
  "int_of_float (binary64 (30 * binary64 (1000 / real_of_int 2))) = 30000 div 2"
  by (rule expected_eval [where ?n1.0 = 44 and ?m1.0 = 8796093022208000 and ?n2.0 = 39 and ?m2.0 = 8246337208320000])
     (simp_all add: round_half_even_def Let_def)

lemma fixed_delay_3:
  "int_of_float (binary64 (30 * binary64 (1000 / real_of_int 3))) = 30000 div 3"
  by (rule expected_eval [where ?n1.0 = 44 and ?m1.0 = 5864062014805333 and ?n2.0 = 39 and ?m2.0 = 5497558138880000])
     (simp_all add: round_half_even_def Let_def)

lemma fixed_delay_4:
  "int_of_float (binary64 (30 * binary64 (1000 / real_of_int 4))) = 30000 div 4"
  by (rule expected_eval [where ?n1.0 = 45 and ?m1.0 = 8796093022208000 and ?n2.0 = 40 and ?m2.0 = 8246337208320000])
     (simp_all add: round_half_even_def Let_def)

lemma fixed_delay_5:
  "int_of_float (binary64 (30 * binary64 (1000 / real_of_int 5))) = 30000 div 5"
  by (rule expected_eval [where ?n1.0 = 45 and ?m1.0 = 7036874417766400 and ?n2.0 = 40 and ?m2.0 = 6597069766656000])
     (simp_all add: round_half_even_def Let_def)

lemma fixed_delay_6:
  "int_of_float (binary64 (30 * binary64 (1000 / real_of_int 6))) = 30000 div 6"
  by (rule expected_eval [where ?n1.0 = 45 and ?m1.0 = 5864062014805333 and ?n2.0 = 40 and ?m2.0 = 5497558138880000])
     (simp_all add: round_half_even_def Let_def)

lemma fixed_delay_8:
  "int_of_float (binary64 (30 * binary64 (1000 / real_of_int 8))) = 30000 div 8"
  by (rule expected_eval [where ?n1.0 = 46 and ?m1.0 = 8796093022208000 and ?n2.0 = 41 and ?m2.0 = 8246337208320000])
     (simp_all add: round_half_even_def Let_def)

lemma fixed_delay_10:
  "int_of_float (binary64 (30 * binary64 (1000 / real_of_int 10))) = 30000 div 10"
  by (rule expected_eval [where ?n1.0 = 46 and ?m1.0 = 7036874417766400 and ?n2.0 = 41 and ?m2.0 = 6597069766656000])
     (simp_all add: round_half_even_def Let_def)

lemma fixed_delay_12:
  "int_of_float (binary64 (30 * binary64 (1000 / real_of_int 12))) = 30000 div 12"
  by (rule expected_eval [where ?n1.0 = 46 and ?m1.0 = 5864062014805333 and ?n2.0 = 41 and ?m2.0 = 5497558138880000])
     (simp_all add: round_half_even_def Let_def)

lemma fixed_delay_15:
  "int_of_float (binary64 (30 * binary64 (1000 / real_of_int 15))) = 30000 div 15"
  by (rule expected_eval [where ?n1.0 = 46 and ?m1.0 = 4691249611844267 and ?n2.0 = 42 and ?m2.0 = 8796093022208001])
     (simp_all add: round_half_even_def Let_def)

lemma fixed_delay_16:
  "int_of_float (binary64 (30 * binary64 (1000 / real_of_int 16))) = 30000 div 16"
  by (rule expected_eval [where ?n1.0 = 47 and ?m1.0 = 8796093022208000 and ?n2.0 = 42 and ?m2.0 = 8246337208320000])
     (simp_all add: round_half_even_def Let_def)

lemma fixed_delay_20:
  "int_of_float (binary64 (30 * binary64 (1000 / real_of_int 20))) = 30000 div 20"
  by (rule expected_eval [where ?n1.0 = 47 and ?m1.0 = 7036874417766400 and ?n2.0 = 42 and ?m2.0 = 6597069766656000])
     (simp_all add: round_half_even_def Let_def)

lemma fixed_delay_24:
  "int_of_float (binary64 (30 * binary64 (1000 / real_of_int 24))) = 30000 div 24"
  by (rule expected_eval [where ?n1.0 = 47 and ?m1.0 = 5864062014805333 and ?n2.0 = 42 and ?m2.0 = 5497558138880000])
     (simp_all add: round_half_even_def Let_def)

lemma fixed_delay_25:
  "int_of_float (binary64 (30 * binary64 (1000 / real_of_int 25))) = 30000 div 25"
  by (rule expected_eval [where ?n1.0 = 47 and ?m1.0 = 5629499534213120 and ?n2.0 = 42 and ?m2.0 = 5277655813324800])
     (simp_all add: round_half_even_def Let_def)

lemma fixed_delay_30:
  "int_of_float (binary64 (30 * binary64 (1000 / real_of_int 30))) = 30000 div 30"
  by (rule expected_eval [where ?n1.0 = 47 and ?m1.0 = 4691249611844267 and ?n2.0 = 43 and ?m2.0 = 8796093022208001])
     (simp_all add: round_half_even_def Let_def)

lemma fixed_delay_40:
  "int_of_float (binary64 (30 * binary64 (1000 / real_of_int 40))) = 30000 div 40"
  by (rule expected_eval [where ?n1.0 = 48 and ?m1.0 = 7036874417766400 and ?n2.0 = 43 and ?m2.0 = 6597069766656000])
     (simp_all add: round_half_even_def Let_def)

lemma fixed_delay_48:
  "int_of_float (binary64 (30 * binary64 (1000 / real_of_int 48))) = 30000 div 48"
  by (rule expected_eval [where ?n1.0 = 48 and ?m1.0 = 5864062014805333 and ?n2.0 = 43 and ?m2.0 = 5497558138880000])
     (simp_all add: round_half_even_def Let_def)

lemma fixed_delay_50:
  "int_of_float (binary64 (30 * binary64 (1000 / real_of_int 50))) = 30000 div 50"
  by (rule expected_eval [where ?n1.0 = 48 and ?m1.0 = 5629499534213120 and ?n2.0 = 43 and ?m2.0 = 5277655813324800])
     (simp_all add: round_half_even_def Let_def)

lemma fixed_delay_60:
  "int_of_float (binary64 (30 * binary64 (1000 / real_of_int 60))) = 30000 div 60"
  by (rule expected_eval [where ?n1.0 = 48 and ?m1.0 = 4691249611844267 and ?n2.0 = 44 and ?m2.0 = 8796093022208001])
     (simp_all add: round_half_even_def Let_def)

lemma fixed_delay_75:
  "int_of_float (binary64 (30 * binary64 (1000 / real_of_int 75))) = 30000 div 75"
  by (rule expected_eval [where ?n1.0 = 49 and ?m1.0 = 7505999378950827 and ?n2.0 = 44 and ?m2.0 = 7036874417766400])
     (simp_all add: round_half_even_def Let_def)

lemma fixed_delay_80:
  "int_of_float (binary64 (30 * binary64 (1000 / real_of_int 80))) = 30000 div 80"
  by (rule expected_eval [where ?n1.0 = 49 and ?m1.0 = 7036874417766400 and ?n2.0 = 44 and ?m2.0 = 6597069766656000])
     (simp_all add: round_half_even_def Let_def)

lemma fixed_delay_100:
  "int_of_float (binary64 (30 * binary64 (1000 / real_of_int 100))) = 30000 div 100"
  by (rule expected_eval [where ?n1.0 = 49 and ?m1.0 = 5629499534213120 and ?n2.0 = 44 and ?m2.0 = 5277655813324800])
     (simp_all add: round_half_even_def Let_def)

lemma fixed_delay_120:
  "int_of_float (binary64 (30 * binary64 (1000 / real_of_int 120))) = 30000 div 120"
  by (rule expected_eval [where ?n1.0 = 49 and ?m1.0 = 4691249611844267 and ?n2.0 = 45 and ?m2.0 = 8796093022208001])
     (simp_all add: round_half_even_def Let_def)

lemma fixed_delay_125:
  "int_of_float (binary64 (30 * binary64 (1000 / real_of_int 125))) = 30000 div 125"
  by (rule expected_eval [where ?n1.0 = 49 and ?m1.0 = 4503599627370496 and ?n2.0 = 45 and ?m2.0 = 8444249301319680])
     (simp_all add: round_half_even_def Let_def)

lemma fixed_delay_150:
  "int_of_float (binary64 (30 * binary64 (1000 / real_of_int 150))) = 30000 div 150"
  by (rule expected_eval [where ?n1.0 = 50 and ?m1.0 = 7505999378950827 and ?n2.0 = 45 and ?m2.0 = 7036874417766400])
     (simp_all add: round_half_even_def Let_def)

lemma fixed_delay_200:
  "int_of_float (binary64 (30 * binary64 (1000 / real_of_int 200))) = 30000 div 200"
  by (rule expected_eval [where ?n1.0 = 50 and ?m1.0 = 5629499534213120 and ?n2.0 = 45 and ?m2.0 = 5277655813324800])
     (simp_all add: round_half_even_def Let_def)

lemma fixed_delay_240:
  "int_of_float (binary64 (30 * binary64 (1000 / real_of_int 240))) = 30000 div 240"
  by (rule expected_eval [where ?n1.0 = 50 and ?m1.0 = 4691249611844267 and ?n2.0 = 46 and ?m2.0 = 8796093022208001])
     (simp_all add: round_half_even_def Let_def)

lemma fixed_delay_250:
  "int_of_float (binary64 (30 * binary64 (1000 / real_of_int 250))) = 30000 div 250"
  by (rule expected_eval [where ?n1.0 = 50 and ?m1.0 = 4503599627370496 and ?n2.0 = 46 and ?m2.0 = 8444249301319680])
     (simp_all add: round_half_even_def Let_def)

lemma fixed_delay_300:
  "int_of_float (binary64 (30 * binary64 (1000 / real_of_int 300))) = 30000 div 300"
  by (rule expected_eval [where ?n1.0 = 51 and ?m1.0 = 7505999378950827 and ?n2.0 = 46 and ?m2.0 = 7036874417766400])
     (simp_all add: round_half_even_def Let_def)

lemma fixed_delay_375:
  "int_of_float (binary64 (30 * binary64 (1000 / real_of_int 375))) = 30000 div 375"
  by (rule expected_eval [where ?n1.0 = 51 and ?m1.0 = 6004799503160661 and ?n2.0 = 46 and ?m2.0 = 5629499534213120])
     (simp_all add: round_half_even_def Let_def)

lemma fixed_delay_400:
  "int_of_float (binary64 (30 * binary64 (1000 / real_of_int 400))) = 30000 div 400"
  by (rule expected_eval [where ?n1.0 = 51 and ?m1.0 = 5629499534213120 and ?n2.0 = 46 and ?m2.0 = 5277655813324800])
     (simp_all add: round_half_even_def Let_def)

lemma fixed_delay_500:
  "int_of_float (binary64 (30 * binary64 (1000 / real_of_int 500))) = 30000 div 500"
  by (rule expected_eval [where ?n1.0 = 51 and ?m1.0 = 4503599627370496 and ?n2.0 = 47 and ?m2.0 = 8444249301319680])
     (simp_all add: round_half_even_def Let_def)

lemma fixed_delay_600:
  "int_of_float (binary64 (30 * binary64 (1000 / real_of_int 600))) = 30000 div 600"
  by (rule expected_eval [where ?n1.0 = 52 and ?m1.0 = 7505999378950827 and ?n2.0 = 47 and ?m2.0 = 7036874417766400])
     (simp_all add: round_half_even_def Let_def)

lemma fixed_delay_625:
  "int_of_float (binary64 (30 * binary64 (1000 / real_of_int 625))) = 30000 div 625"
  by (rule expected_eval [where ?n1.0 = 52 and ?m1.0 = 7205759403792794 and ?n2.0 = 47 and ?m2.0 = 6755399441055744])
     (simp_all add: round_half_even_def Let_def)

lemma fixed_delay_750:
  "int_of_float (binary64 (30 * binary64 (1000 / real_of_int 750))) = 30000 div 750"
  by (rule expected_eval [where ?n1.0 = 52 and ?m1.0 = 6004799503160661 and ?n2.0 = 47 and ?m2.0 = 5629499534213120])
     (simp_all add: round_half_even_def Let_def)

lemma fixed_delay_1000:
  "int_of_float (binary64 (30 * binary64 (1000 / real_of_int 1000))) = 30000 div 1000"
  by (rule expected_eval [where ?n1.0 = 52 and ?m1.0 = 4503599627370496 and ?n2.0 = 48 and ?m2.0 = 8444249301319680])
     (simp_all add: round_half_even_def Let_def)

lemma fixed_delay_1200:
  "int_of_float (binary64 (30 * binary64 (1000 / real_of_int 1200))) = 30000 div 1200"
  by (rule expected_eval [where ?n1.0 = 53 and ?m1.0 = 7505999378950827 and ?n2.0 = 48 and ?m2.0 = 7036874417766400])
     (simp_all add: round_half_even_def Let_def)

lemma fixed_delay_1250:
  "int_of_float (binary64 (30 * binary64 (1000 / real_of_int 1250))) = 30000 div 1250"
  by (rule expected_eval [where ?n1.0 = 53 and ?m1.0 = 7205759403792794 and ?n2.0 = 48 and ?m2.0 = 6755399441055744])
     (simp_all add: round_half_even_def Let_def)

lemma fixed_delay_1500:
  "int_of_float (binary64 (30 * binary64 (1000 / real_of_int 1500))) = 30000 div 1500"
  by (rule expected_eval [where ?n1.0 = 53 and ?m1.0 = 6004799503160661 and ?n2.0 = 48 and ?m2.0 = 5629499534213120])
     (simp_all add: round_half_even_def Let_def)

lemma fixed_delay_1875:
  "int_of_float (binary64 (30 * binary64 (1000 / real_of_int 1875))) = 30000 div 1875"
  by (rule expected_eval [where ?n1.0 = 53 and ?m1.0 = 4803839602528529 and ?n2.0 = 49 and ?m2.0 = 9007199254740992])
     (simp_all add: round_half_even_def Let_def)

lemma fixed_delay_2000:
  "int_of_float (binary64 (30 * binary64 (1000 / real_of_int 2000))) = 30000 div 2000"
  by (rule expected_eval [where ?n1.0 = 53 and ?m1.0 = 4503599627370496 and ?n2.0 = 49 and ?m2.0 = 8444249301319680])
     (simp_all add: round_half_even_def Let_def)

lemma fixed_delay_2500:
  "int_of_float (binary64 (30 * binary64 (1000 / real_of_int 2500))) = 30000 div 2500"
  by (rule expected_eval [where ?n1.0 = 54 and ?m1.0 = 7205759403792794 and ?n2.0 = 49 and ?m2.0 = 6755399441055744])
     (simp_all add: round_half_even_def Let_def)

lemma fixed_delay_3000:
  "int_of_float (binary64 (30 * binary64 (1000 / real_of_int 3000))) = 30000 div 3000"
  by (rule expected_eval [where ?n1.0 = 54 and ?m1.0 = 6004799503160661 and ?n2.0 = 49 and ?m2.0 = 5629499534213120])
     (simp_all add: round_half_even_def Let_def)

lemma fixed_delay_3750:
  "int_of_float (binary64 (30 * binary64 (1000 / real_of_int 3750))) = 30000 div 3750"
  by (rule expected_eval [where ?n1.0 = 54 and ?m1.0 = 4803839602528529 and ?n2.0 = 50 and ?m2.0 = 9007199254740992])
     (simp_all add: round_half_even_def Let_def)

lemma fixed_delay_5000:
  "int_of_float (binary64 (30 * binary64 (1000 / real_of_int 5000))) = 30000 div 5000"
  by (rule expected_eval [where ?n1.0 = 55 and ?m1.0 = 7205759403792794 and ?n2.0 = 50 and ?m2.0 = 6755399441055744])
     (simp_all add: round_half_even_def Let_def)

lemma fixed_delay_6000:
  "int_of_float (binary64 (30 * binary64 (1000 / real_of_int 6000))) = 30000 div 6000"
  by (rule expected_eval [where ?n1.0 = 55 and ?m1.0 = 6004799503160661 and ?n2.0 = 50 and ?m2.0 = 5629499534213120])
     (simp_all add: round_half_even_def Let_def)

lemma fixed_delay_7500:
  "int_of_float (binary64 (30 * binary64 (1000 / real_of_int 7500))) = 30000 div 7500"
  by (rule expected_eval [where ?n1.0 = 55 and ?m1.0 = 4803839602528529 and ?n2.0 = 51 and ?m2.0 = 9007199254740992])
     (simp_all add: round_half_even_def Let_def)

lemma fixed_delay_10000:
  "int_of_float (binary64 (30 * binary64 (1000 / real_of_int 10000))) = 30000 div 10000"
  by (rule expected_eval [where ?n1.0 = 56 and ?m1.0 = 7205759403792794 and ?n2.0 = 51 and ?m2.0 = 6755399441055744])
     (simp_all add: round_half_even_def Let_def)

lemma fixed_delay_15000:
  "int_of_float (binary64 (30 * binary64 (1000 / real_of_int 15000))) = 30000 div 15000"
  by (rule expected_eval [where ?n1.0 = 56 and ?m1.0 = 4803839602528529 and ?n2.0 = 52 and ?m2.0 = 9007199254740992])
     (simp_all add: round_half_even_def Let_def)

lemma fixed_delay_30000:
  "int_of_float (binary64 (30 * binary64 (1000 / real_of_int 30000))) = 30000 div 30000"
  by (rule expected_eval [where ?n1.0 = 57 and ?m1.0 = 4803839602528529 and ?n2.0 = 53 and ?m2.0 = 9007199254740992])
     (simp_all add: round_half_even_def Let_def)

lemma fixed_delay_divisors:
  assumes "c \<in> {1, 2, 3, 4, 5, 6, 8, 10, 12, 15, 16, 20, 24, 25, 30, 40, 48, 50, 60, 75, 80, 100, 120, 125, 150, 200, 240, 250, 300, 375, 400, 500, 600, 625, 750, 1000, 1200, 1250, 1500, 1875, 2000, 2500, 3000, 3750, 5000, 6000, 7500, 10000, 15000, 30000}"
  shows "int_of_float (binary64 (30 * binary64 (1000 / real_of_int c))) = 30000 div c"
  using assms
  by (elim insertE emptyE)
     (simp_all only: fixed_delay_1 fixed_delay_2 fixed_delay_3 fixed_delay_4 fixed_delay_5
      fixed_delay_6 fixed_delay_8 fixed_delay_10 fixed_delay_12 fixed_delay_15
      fixed_delay_16 fixed_delay_20 fixed_delay_24 fixed_delay_25 fixed_delay_30
      fixed_delay_40 fixed_delay_48 fixed_delay_50 fixed_delay_60 fixed_delay_75
      fixed_delay_80 fixed_delay_100 fixed_delay_120 fixed_delay_125 fixed_delay_150
      fixed_delay_200 fixed_delay_240 fixed_delay_250 fixed_delay_300 fixed_delay_375
      fixed_delay_400 fixed_delay_500 fixed_delay_600 fixed_delay_625 fixed_delay_750
      fixed_delay_1000 fixed_delay_1200 fixed_delay_1250 fixed_delay_1500
      fixed_delay_1875 fixed_delay_2000 fixed_delay_2500 fixed_delay_3000
      fixed_delay_3750 fixed_delay_5000 fixed_delay_6000 fixed_delay_7500
      fixed_delay_10000 fixed_delay_15000 fixed_delay_30000)

lemma binary64_error_weak:
  assumes "0 \<le> x"
  shows "\<bar>binary64 x - x\<bar> \<le> x / 2 ^ 53 + 1 / 2 ^ 60"
proof (cases "x = 0")
  case True
  then show ?thesis by (simp add: binary64_def)
next
  case False
  then have "0 < x" using assms by simp
  then have "\<bar>binary64 x - x\<bar> \<le> x / 2 ^ 53 + 1 / 2 ^ 1075"
    by (rule binary64_error)
  moreover have "(1::real) / 2 ^ 1075 \<le> 1 / 2 ^ 60"
    by (intro divide_left_mono power_increasing mult_pos_pos zero_less_power) simp_all
  ultimately show ?thesis by linarith
qed

lemma expected_error:
  assumes "0 < D"
  shows "\<bar>binary64 (30 * binary64 (1000 / D)) - 30000 / D\<bar>
           \<le> 3 * (30000 / D / 2 ^ 53) + 32 / 2 ^ 60"
proof -
  define x1 where "x1 = 1000 / D"
  define q where "q = binary64 x1"
  define y where "y = binary64 (30 * q)"
  define a where "a = 30000 / D / 2 ^ 53"
  define t :: real where "t = 1 / 2 ^ 60"
  have x1: "0 \<le> x1" using assms by (simp add: x1_def)
  have a: "0 \<le> a" using assms by (simp add: a_def)
  have t: "0 \<le> t" by (simp add: t_def)
  have a30: "30 * (x1 / 2 ^ 53) = a" by (simp add: a_def x1_def)
  have X: "30 * x1 = 30000 / D" by (simp add: x1_def)
  have q0: "0 \<le> q" unfolding q_def using x1 by (rule binary64_nonneg)
  have eq: "\<bar>q - x1\<bar> \<le> x1 / 2 ^ 53 + t"
    unfolding q_def t_def using x1 by (rule binary64_error_weak)
  have "0 \<le> 30 * q" using q0 by simp
  then have ey: "\<bar>y - 30 * q\<bar> \<le> 30 * q / 2 ^ 53 + t"
    unfolding y_def t_def by (rule binary64_error_weak)
  have q_le: "30 * q \<le> 30000 / D + a + 30 * t"
    using eq a30 X by linarith
  have "30 * q / 2 ^ 53 \<le> (30000 / D + a + 30 * t) / 2 ^ 53"
    using q_le by (simp add: divide_right_mono)
  also have "\<dots> = a + a / 2 ^ 53 + 30 * t / 2 ^ 53"
    by (simp add: a_def add_divide_distrib)
  also have "\<dots> \<le> a + a + t"
  proof -
    have "a / 2 ^ 53 \<le> a / 1"
      using a by (intro divide_left_mono) simp_all
    moreover have "30 * t / 2 ^ 53 \<le> t"
      using t by (simp add: field_simps)
    ultimately show ?thesis by simp
  qed
  finally have "30 * q / 2 ^ 53 \<le> a + a + t" .
  then have "\<bar>y - 30000 / D\<bar> \<le> 3 * a + 32 * t"
    using ey eq a30 X by linarith
  then show ?thesis
    by (simp add: y_def q_def x1_def a_def t_def)
qed


lemma int_of_float_floor_eq:
  assumes "real_of_int k \<le> y" and "y < real_of_int k + 1" and "0 \<le> k"
  shows "int_of_float y = k"
proof -
  have "0 \<le> real_of_int k" using assms(3) by simp
  then have "0 \<le> y" using assms(1) by linarith
  moreover have "\<lfloor>y\<rfloor> = k" using assms(1,2) by linarith
  ultimately show ?thesis by (simp add: int_of_float_def)
qed

lemma fixed_delay_large:
  assumes "30000 < d"
  shows "int_of_float (binary64 (30 * binary64 (1000 / real_of_int d))) = 30000 div d"
proof -
  define D where "D = real_of_int d"
  define y where "y = binary64 (30 * binary64 (1000 / D))"
  have D: "30001 \<le> D" using assms by (simp add: D_def)
  then have pos: "0 < D" by simp
  have X: "30000 / D \<le> 30000 / 30001"
    using D by (intro divide_left_mono) simp_all
  then have "30000 / D / 2 ^ 53 \<le> 30000 / 30001 / 2 ^ 53"
    by (intro divide_right_mono) simp_all
  moreover have "\<bar>y - 30000 / D\<bar> \<le> 3 * (30000 / D / 2 ^ 53) + 32 / 2 ^ 60"
    unfolding y_def using pos by (rule expected_error)
  ultimately have "y \<le> 30000 / 30001 + 3 * (30000 / 30001 / 2 ^ 53) + 32 / 2 ^ 60"
    using X by linarith
  also have "\<dots> < 1" by simp
  finally have "y < 1" .
  moreover have "0 \<le> y"
    unfolding y_def using pos
    by (intro binary64_nonneg mult_nonneg_nonneg) simp_all
  ultimately have "int_of_float y = 0"
    using int_of_float_floor_eq [of 0 y] by simp
  moreover have "30000 div d = 0" using assms by simp
  ultimately show ?thesis by (simp add: y_def D_def)
qed

lemma fixed_delay_remainder:
  assumes "0 < d" and "d \<le> 30000" and "30000 mod d \<noteq> 0"
  shows "int_of_float (binary64 (30 * binary64 (1000 / real_of_int d))) = 30000 div d"
proof -
  define D where "D = real_of_int d"
  define k where "k = 30000 div d"
  define r where "r = 30000 mod d"
  define y where "y = binary64 (30 * binary64 (1000 / D))"
  have pos: "0 < D" and D1: "1 \<le> D" and D2: "D \<le> 30000"
    using assms(1,2) by (simp_all add: D_def)
  have "0 \<le> 30000 mod d" and "30000 mod d < d"
    using assms(1) by simp_all
  then have r: "1 \<le> r" "r \<le> d - 1"
    using assms(3) by (simp_all add: r_def)
  have k: "0 \<le> k" using assms(1) by (simp add: k_def pos_imp_zdiv_nonneg_iff)
  have "30000 = k * d + r" by (simp add: k_def r_def)
  then have "real_of_int 30000 = real_of_int (k * d + r)" by simp
  then have "30000 = real_of_int k * D + real_of_int r" by (simp add: D_def)
  then have X: "30000 / D = real_of_int k + real_of_int r / D"
    using pos by (simp add: field_simps)
  have inv: "1 / 30000 \<le> 1 / D"
    using pos D2 by (intro divide_left_mono) simp_all
  have "1 / D \<le> real_of_int r / D"
    using r(1) pos by (intro divide_right_mono) simp_all
  then have lo: "real_of_int k + 1 / 30000 \<le> 30000 / D"
    using X inv by linarith
  have "real_of_int r / D \<le> (D - 1) / D"
    using r(2) pos by (intro divide_right_mono) (simp_all add: D_def)
  also have "\<dots> = 1 - 1 / D" using pos by (simp add: field_simps)
  finally have hi: "30000 / D \<le> real_of_int k + 1 - 1 / 30000"
    using X inv by linarith
  have "30000 / D \<le> 30000 / 1"
    using D1 by (intro divide_left_mono) simp_all
  then have "30000 / D / 2 ^ 53 \<le> 30000 / 2 ^ 53"
    by (simp add: divide_right_mono)
  moreover have "\<bar>y - 30000 / D\<bar> \<le> 3 * (30000 / D / 2 ^ 53) + 32 / 2 ^ 60"
    unfolding y_def using pos by (rule expected_error)
  ultimately have "\<bar>y - 30000 / D\<bar> \<le> 3 * (30000 / 2 ^ 53) + 32 / 2 ^ 60"
    by linarith
  moreover have "3 * (30000 / 2 ^ 53) + 32 / 2 ^ 60 < (1 / 30000 :: real)"
    by simp
  ultimately have "real_of_int k \<le> y" and "y < real_of_int k + 1"
    using lo hi by linarith+
  then have "int_of_float y = k"
    using k by (rule int_of_float_floor_eq)
  then show ?thesis by (simp add: y_def D_def k_def)
qed

lemma divisors_16: "(a::nat) dvd 16 \<Longrightarrow> a \<in> {1, 2, 4, 8, 16}"
proof -
  assume d: "a dvd 16"
  then have "a \<le> 16" by (rule dvd_imp_le) simp
  then have "a = 0 \<or> a = 1 \<or> a = 2 \<or> a = 3 \<or> a = 4 \<or> a = 5 \<or> a = 6 \<or> a = 7 \<or> a = 8 \<or> a = 9 \<or> a = 10 \<or> a = 11 \<or> a = 12 \<or> a = 13 \<or> a = 14 \<or> a = 15 \<or> a = 16"
    by presburger
  then show ?thesis using d by auto
qed

lemma divisors_3: "(a::nat) dvd 3 \<Longrightarrow> a \<in> {1, 3}"
proof -
  assume d: "a dvd 3"
  then have "a \<le> 3" by (rule dvd_imp_le) simp
  then have "a = 0 \<or> a = 1 \<or> a = 2 \<or> a = 3"
    by presburger
  then show ?thesis using d by auto
qed

lemma divisors_25: "(a::nat) dvd 25 \<Longrightarrow> a \<in> {1, 5, 25}"
proof -
  assume d: "a dvd 25"
  then have "a \<le> 25" by (rule dvd_imp_le) simp
  then have "a = 0 \<or> a = 1 \<or> a = 2 \<or> a = 3 \<or> a = 4 \<or> a = 5 \<or> a = 6 \<or> a = 7 \<or> a = 8 \<or> a = 9 \<or> a = 10 \<or> a = 11 \<or> a = 12 \<or> a = 13 \<or> a = 14 \<or> a = 15 \<or> a = 16 \<or> a = 17 \<or> a = 18 \<or> a = 19 \<or> a = 20 \<or> a = 21 \<or> a = 22 \<or> a = 23 \<or> a = 24 \<or> a = 25"
    by presburger
  then show ?thesis using d by auto
qed

lemma divisors_30000:
  assumes "(n::nat) dvd 30000"
  shows "n \<in> {1, 2, 3, 4, 5, 6, 8, 10, 12, 15, 16, 20, 24, 25, 30, 40, 48, 50, 60, 75, 80, 100, 120, 125, 150, 200, 240, 250, 300, 375, 400, 500, 600, 625, 750, 1000, 1200, 1250, 1500, 1875, 2000, 2500, 3000, 3750, 5000, 6000, 7500, 10000, 15000, 30000}"
proof -
  have "n dvd 16 * (3 * (25 * 25))" using assms by simp
  then obtain a m where n: "n = a * m" and a: "a dvd 16" and m: "m dvd 3 * (25 * 25)"
    by (rule dvd_productE)
  from m obtain b m' where m2: "m = b * m'" and b: "b dvd 3" and m': "m' dvd 25 * 25"
    by (rule dvd_productE)
  from m' obtain c e where m3: "m' = c * e" and c: "c dvd 25" and e: "e dvd 25"
    by (rule dvd_productE)
  have "m' \<in> {1, 5, 25, 125, 625}"
    using divisors_25 [OF c] divisors_25 [OF e] unfolding m3 by auto
  then have "m \<in> {1, 3, 5, 15, 25, 75, 125, 375, 625, 1875}"
    using divisors_3 [OF b] unfolding m2 by auto
  then show ?thesis
    using divisors_16 [OF a] unfolding n by auto
qed

lemma fixed_delay_binary64:
  assumes "0 < d"
  shows "int_of_float (binary64 (30 * binary64 (1000 / real_of_int d))) = 30000 div d"
proof (cases "30000 < d")
  case True
  then show ?thesis by (rule fixed_delay_large)
next
  case False
  then have le: "d \<le> 30000" by simp
  show ?thesis
  proof (cases "30000 mod d = 0")
    case False
    with assms le show ?thesis by (rule fixed_delay_remainder)
  next
    case True
    then have "d dvd 30000" by (simp add: dvd_eq_mod_eq_0)
    then have "nat d dvd nat 30000"
      using assms by (simp add: nat_dvd_iff)
    then have "nat d dvd 30000" by simp
    then have "nat d \<in> {1, 2, 3, 4, 5, 6, 8, 10, 12, 15, 16, 20, 24, 25, 30, 40, 48, 50, 60, 75, 80, 100, 120, 125, 150, 200, 240, 250, 300, 375, 400, 500, 600, 625, 750, 1000, 1200, 1250, 1500, 1875, 2000, 2500, 3000, 3750, 5000, 6000, 7500, 10000, 15000, 30000}"
      by (rule divisors_30000)
    then have "d \<in> {1, 2, 3, 4, 5, 6, 8, 10, 12, 15, 16, 20, 24, 25, 30, 40, 48, 50, 60, 75, 80, 100, 120, 125, 150, 200, 240, 250, 300, 375, 400, 500, 600, 625, 750, 1000, 1200, 1250, 1500, 1875, 2000, 2500, 3000, 3750, 5000, 6000, 7500, 10000, 15000, 30000}"
      using assms by (simp add: nat_eq_iff)
    then show ?thesis
      by (rule fixed_delay_divisors)
  qed
qed

text \<open>
  Claim C2. For every delay above 0 the expected count of a publisher is the integer
  floor of 30000 divided by the delay, \<open>floor(30 * 1000 / delay)\<close>, whatever the
  counters: the rounding of the division and of the product never moves the result
  across an integer.
\<close>

theorem expected_count_fixed_delay:
  assumes "0 < d"
  shows "expected_messages d sorted_counters = Inr (30000 div d)
    \<and> expected_messages d sorted_counters = Inr \<lfloor>30 * 1000 / real_of_int d\<rfloor>"
proof -
  have "\<lfloor>30 * 1000 / real_of_int d\<rfloor> = 30000 div d"
    using floor_divide_of_int_eq [of 30000 d, where ?'a = real] by simp
  then show ?thesis
    using assms fixed_delay_binary64 [OF assms]
    by (simp add: expected_messages_def float_truediv_def)
qed

theorem expected_count_fixed_delay_witness:
  "(0::int) < 100 \<and> expected_messages 100 [0, 1, 2] = Inr 300
   \<and> (0::int) < 7 \<and> expected_messages 7 [] = Inr 4285"
  using expected_count_fixed_delay [of 100 "[0, 1, 2]"] expected_count_fixed_delay [of 7 "[]"]
  by simp

subsection \<open>The loss\<close>




subsection \<open>The averages over the publishers\<close>



section \<open>Properties of the message handler of the analyzer\<close>

subsection \<open>Duplicate receipts\<close>


lemma dict_set_set: "dict_set (dict_set d k v) k w = dict_set d k w"
  by (simp add: dict_set_def)

lemma dict_get_set: "dict_get (dict_set d k v) k = Inr v"
  by (simp add: dict_get_def dict_set_def)

lemma counter_message_stores:
  assumes "list_get (py_split CHR ''/'' tp) 1 = Inr s1" and "int_of s1 = Some i"
    and "list_get (py_split_max CHR '':'' 2 pl) 0 = Inr s2" and "int_of s2 = Some c"
    and "list_get (py_split_max CHR '':'' 2 pl) 1 = Inr s3" and "int_of s3 = Some t"
  shows "counter_message int_of a tp pl =
    (a\<lparr>messages_received :=
         dict_set (messages_received a) i
           (dict_set (case DAList.lookup (messages_received a) i of
                        None \<Rightarrow> DAList.empty
                      | Some received \<Rightarrow> received) c t)\<rparr>, None)"
proof (cases "DAList.lookup (messages_received a) i")
  case None
  then show ?thesis
    using assms
    by (simp add: counter_message_def Let_def py_bind_def py_int_def dict_contains_def
        dict_get_set dict_set_set)
next
  case (Some received)
  then show ?thesis
    using assms
    by (simp add: counter_message_def Let_def py_bind_def py_int_def dict_contains_def
        dict_get_def)
qed

lemma publisher_values_duplicates:
  "publisher_values d m = Inr v \<Longrightarrow> pm_duplicates v = 0"
  by (auto simp: publisher_values_def Let_def py_bind_def duplicate_percentage_zero
      split: sum.splits)

lemma sum_duplicates_zero:
  assumes "map (publisher_values d) ms = map Inr vals"
  shows "sum_list (map pm_duplicates vals) = 0"
  using assms
proof (induction ms arbitrary: vals)
  case Nil
  then show ?case by simp
next
  case (Cons m ms)
  then obtain v vs where "vals = v # vs" "publisher_values d m = Inr v"
    "map (publisher_values d) ms = map Inr vs"
    by (cases vals) auto
  then show ?case
    using Cons.IH [of vs] publisher_values_duplicates [of d m v] by simp
qed

lemma avg_duplicates_zero:
  "\<exists>r. calculate_results a = Inr (a\<lparr>results := results a @ [r]\<rparr>) \<and> avg_duplicates r = 0"
proof -
  obtain vals r where
    v: "map (publisher_values (ct_delay (current_test a)))
          (filter (\<lambda>m. dict_keys m \<noteq> []) (dict_values (messages_received a))) = map Inr vals"
    and c: "calculate_results a = Inr (a\<lparr>results := results a @ [r]\<rparr>)"
    and r: "avg_duplicates r =
      (if vals = [] then 0 else sum_list (map pm_duplicates vals) / real (length vals))"
    using calculate_results_vals [of a] by force
  have "avg_duplicates r = 0"
    using r sum_duplicates_zero [OF v] by simp
  then show ?thesis
    using c by auto
qed

lemma on_message_counter_example:
  assumes "decode pl = Inr pl"
    and "list_get (py_split_max CHR '':'' 2 pl) 0 = Inr s2" and "dec_int s2 = Some c"
    and "list_get (py_split_max CHR '':'' 2 pl) 1 = Inr s3" and "dec_int s3 = Some t"
  shows "analyzer_on_message dec_int float_of a \<lparr>topic = ''counter/1/0/0/0'', payload = pl\<rparr> =
    (a\<lparr>messages_received :=
         dict_set (messages_received a) 1
           (dict_set (case DAList.lookup (messages_received a) 1 of
                        None \<Rightarrow> DAList.empty
                      | Some received \<Rightarrow> received) c t)\<rparr>, None)"
proof -
  have "list_get (py_split CHR ''/'' ''counter/1/0/0/0'') 1 = Inr ''1''"
    by (simp add: list_get_def)
  moreover have "dec_int ''1'' = Some 1"
    by (simp add: dec_int_def digit_val_def)
  ultimately have "counter_message dec_int a ''counter/1/0/0/0'' pl =
    (a\<lparr>messages_received :=
         dict_set (messages_received a) 1
           (dict_set (case DAList.lookup (messages_received a) 1 of
                        None \<Rightarrow> DAList.empty
                      | Some received \<Rightarrow> received) c t)\<rparr>, None)"
    using assms(2-5) by (rule counter_message_stores)
  then show ?thesis
    using assms(1) by (simp add: analyzer_on_message_def startswith_def)
qed


lemma lookup_dict_set:
  "DAList.lookup (dict_set d k v) k' = (if k = k' then Some v else DAList.lookup d k')"
  by (simp add: dict_set_def DAList.lookup_update)

text \<open>
  Claim C1 asks for a duplicate percentage of 25 and 3 distinct counters when one
  publisher's receipts are the counters 0, 1, 1, 2. The handler stores a receipt under
  its counter, so the second receipt of counter 1 replaces the first and no count of
  the receipts is kept; \<open>calculate_results\<close> then compares the number of keys with the
  number of distinct keys, which are the same. The four receipts leave three counters,
  a duplicate count of 0 and a duplicate percentage of 0, for the publisher and in the
  record of the run.
\<close>

theorem duplicate_receipts_report_zero:
  "(let a = fst (receive_all dec_int (\<lambda>s. None) init_analyzer
             [\<lparr>topic = ''counter/1/0/0/0'', payload = ''0:1000:''\<rparr>,
              \<lparr>topic = ''counter/1/0/0/0'', payload = ''1:1100:''\<rparr>,
              \<lparr>topic = ''counter/1/0/0/0'', payload = ''1:1150:''\<rparr>,
              \<lparr>topic = ''counter/1/0/0/0'', payload = ''2:1250:''\<rparr>])
    in \<exists>m v r. dict_items (messages_received a) = [(1, m)]
         \<and> dict_items m = [(0, 1000), (1, 1150), (2, 1250)]
         \<and> dict_len m = 3
         \<and> duplicate_count (sort (dict_keys m)) = 0
         \<and> publisher_values 0 m = Inr v \<and> pm_duplicates v = 0
         \<and> calculate_results a = Inr (a\<lparr>results := results a @ [r]\<rparr>)
         \<and> avg_duplicates r = 0)"
proof -
  define f :: "string \<Rightarrow> real option" where "f = (\<lambda>s. None)"
  define m :: "(int, int) dict" where
    "m = dict_set (dict_set (dict_set DAList.empty 0 1000) 1 1150) 2 1250"
  define a where "a = init_analyzer\<lparr>messages_received := dict_set DAList.empty 1 m\<rparr>"
  have s1: "analyzer_on_message dec_int f b \<lparr>topic = ''counter/1/0/0/0'', payload = ''0:1000:''\<rparr>
      = (b\<lparr>messages_received := dict_set (messages_received b) 1
             (dict_set (case DAList.lookup (messages_received b) 1 of
                          None \<Rightarrow> DAList.empty | Some received \<Rightarrow> received) 0 1000)\<rparr>, None)"
    for b
    by (rule on_message_counter_example [where ?s2.0 = "''0''" and ?s3.0 = "''1000''"])
       (simp_all add: decode_def numeral_2_eq_2 list_get_def dec_int_def digit_val_def)
  have s2: "analyzer_on_message dec_int f b \<lparr>topic = ''counter/1/0/0/0'', payload = ''1:1100:''\<rparr>
      = (b\<lparr>messages_received := dict_set (messages_received b) 1
             (dict_set (case DAList.lookup (messages_received b) 1 of
                          None \<Rightarrow> DAList.empty | Some received \<Rightarrow> received) 1 1100)\<rparr>, None)"
    for b
    by (rule on_message_counter_example [where ?s2.0 = "''1''" and ?s3.0 = "''1100''"])
       (simp_all add: decode_def numeral_2_eq_2 list_get_def dec_int_def digit_val_def)
  have s3: "analyzer_on_message dec_int f b \<lparr>topic = ''counter/1/0/0/0'', payload = ''1:1150:''\<rparr>
      = (b\<lparr>messages_received := dict_set (messages_received b) 1
             (dict_set (case DAList.lookup (messages_received b) 1 of
                          None \<Rightarrow> DAList.empty | Some received \<Rightarrow> received) 1 1150)\<rparr>, None)"
    for b
    by (rule on_message_counter_example [where ?s2.0 = "''1''" and ?s3.0 = "''1150''"])
       (simp_all add: decode_def numeral_2_eq_2 list_get_def dec_int_def digit_val_def)
  have s4: "analyzer_on_message dec_int f b \<lparr>topic = ''counter/1/0/0/0'', payload = ''2:1250:''\<rparr>
      = (b\<lparr>messages_received := dict_set (messages_received b) 1
             (dict_set (case DAList.lookup (messages_received b) 1 of
                          None \<Rightarrow> DAList.empty | Some received \<Rightarrow> received) 2 1250)\<rparr>, None)"
    for b
    by (rule on_message_counter_example [where ?s2.0 = "''2''" and ?s3.0 = "''1250''"])
       (simp_all add: decode_def numeral_2_eq_2 list_get_def dec_int_def digit_val_def)
  have run: "fst (receive_all dec_int f init_analyzer
             [\<lparr>topic = ''counter/1/0/0/0'', payload = ''0:1000:''\<rparr>,
              \<lparr>topic = ''counter/1/0/0/0'', payload = ''1:1100:''\<rparr>,
              \<lparr>topic = ''counter/1/0/0/0'', payload = ''1:1150:''\<rparr>,
              \<lparr>topic = ''counter/1/0/0/0'', payload = ''2:1250:''\<rparr>]) = a"
    by (simp add: s1 s2 s3 s4 a_def m_def init_analyzer_def lookup_dict_set dict_set_set)
  have items: "dict_items (messages_received a) = [(1, m)]"
    by (simp add: a_def dict_items_set dict_items_empty)
  have mi: "dict_items m = [(0, 1000), (1, 1150), (2, 1250)]"
    by (simp add: m_def dict_items_set dict_items_empty)
  have ml: "dict_len m = 3"
    by (simp add: dict_len_def mi)
  have ne: "dict_keys m \<noteq> []"
    by (simp add: dict_keys_def mi)
  obtain v where v: "publisher_values 0 m = Inr v"
    using publisher_values_Inr [OF ne] by blast
  obtain r where r: "calculate_results a = Inr (a\<lparr>results := results a @ [r]\<rparr>)"
    "avg_duplicates r = 0"
    using avg_duplicates_zero [of a] by blast
  show ?thesis
    unfolding Let_def f_def [symmetric] run
    using items mi ml duplicate_count_keys [of m] v publisher_values_duplicates [OF v] r
    by blast
qed

subsection \<open>Messages that do not parse\<close>

lemma counter_not_sys: "startswith t ''counter/'' \<Longrightarrow> \<not> startswith t ''$SYS/''"
  by (cases t) (auto simp: startswith_def)

lemma counter_message_raises:
  assumes "py_bind (list_get (py_split CHR ''/'' tp) 1) (py_int int_of) = Inl e
    \<or> py_bind (list_get (py_split_max CHR '':'' 2 pl) 0) (py_int int_of) = Inl e
    \<or> py_bind (list_get (py_split_max CHR '':'' 2 pl) 1) (py_int int_of) = Inl e"
  shows "fst (counter_message int_of a tp pl) = a"
  using assms
  by (auto simp: counter_message_def Let_def split: sum.splits)

lemma malformed_counter_message_discarded:
  assumes "startswith (topic msg) ''counter/''"
    and "decode (payload msg) = Inr pl"
    and "py_bind (list_get (py_split CHR ''/'' (topic msg)) 1) (py_int int_of) = Inl e
      \<or> py_bind (list_get (py_split_max CHR '':'' 2 pl) 0) (py_int int_of) = Inl e
      \<or> py_bind (list_get (py_split_max CHR '':'' 2 pl) 1) (py_int int_of) = Inl e"
  shows "analyzer_on_message int_of float_of a msg = (a, None)"
  using assms(1,2) counter_not_sys [OF assms(1)] counter_message_raises [OF assms(3)]
  by (simp add: analyzer_on_message_def)

lemma counter_message_all_or_nothing:
  "fst (counter_message int_of a tp pl) = a
   \<or> (\<exists>i c t. fst (counter_message int_of a tp pl) =
         a\<lparr>messages_received :=
             dict_set (messages_received a) i
               (dict_set (case DAList.lookup (messages_received a) i of
                            None \<Rightarrow> DAList.empty
                          | Some received \<Rightarrow> received) c t)\<rparr>)"
proof (cases "py_bind (list_get (py_split CHR ''/'' tp) 1) (py_int int_of)")
  case (Inl e)
  then show ?thesis using counter_message_raises [of tp int_of e pl a] by simp
next
  case i: (Inr i)
  show ?thesis
  proof (cases "py_bind (list_get (py_split_max CHR '':'' 2 pl) 0) (py_int int_of)")
    case (Inl e)
    then show ?thesis using counter_message_raises [of tp int_of e pl a] by simp
  next
    case c: (Inr c)
    show ?thesis
    proof (cases "py_bind (list_get (py_split_max CHR '':'' 2 pl) 1) (py_int int_of)")
      case (Inl e)
      then show ?thesis using counter_message_raises [of tp int_of e pl a] by simp
    next
      case t: (Inr t)
      obtain s1 s2 s3 where "list_get (py_split CHR ''/'' tp) 1 = Inr s1" "int_of s1 = Some i"
        "list_get (py_split_max CHR '':'' 2 pl) 0 = Inr s2" "int_of s2 = Some c"
        "list_get (py_split_max CHR '':'' 2 pl) 1 = Inr s3" "int_of s3 = Some t"
        using i c t by (auto simp: py_bind_def py_int_def split: sum.splits option.splits)
      then show ?thesis
        using counter_message_stores [of tp s1 int_of i pl s2 c s3 t a] by auto
    qed
  qed
qed

lemma utf8_invalid_ff: "decode [char_of (255 :: nat)] = Inl UnicodeDecodeError"
  by (simp add: decode_def)

lemma malformed_examples:
  "analyzer_on_message dec_int float_of a \<lparr>topic = ''counter/1/0/0/0'', payload = ''x:1000:''\<rparr>
     = (a, None)"
  "analyzer_on_message dec_int float_of a \<lparr>topic = ''counter/1/0/0/0'', payload = ''5''\<rparr>
     = (a, None)"
  "analyzer_on_message dec_int float_of a \<lparr>topic = ''counter/abc/0/0/0'', payload = ''5:1000:''\<rparr>
     = (a, None)"
proof -
  show "analyzer_on_message dec_int float_of a
      \<lparr>topic = ''counter/1/0/0/0'', payload = ''x:1000:''\<rparr> = (a, None)"
    by (rule malformed_counter_message_discarded [where pl = "''x:1000:''" and e = ValueError])
       (simp_all add: startswith_def decode_def py_bind_def list_get_def py_int_def dec_int_def
         digit_val_def numeral_2_eq_2)
  show "analyzer_on_message dec_int float_of a
      \<lparr>topic = ''counter/1/0/0/0'', payload = ''5''\<rparr> = (a, None)"
    by (rule malformed_counter_message_discarded [where pl = "''5''" and e = IndexError])
       (simp_all add: startswith_def decode_def py_bind_def list_get_def py_int_def dec_int_def
         digit_val_def numeral_2_eq_2)
  show "analyzer_on_message dec_int float_of a
      \<lparr>topic = ''counter/abc/0/0/0'', payload = ''5:1000:''\<rparr> = (a, None)"
    by (rule malformed_counter_message_discarded [where pl = "''5:1000:''" and e = ValueError])
       (simp_all add: startswith_def decode_def py_bind_def list_get_def py_int_def dec_int_def
         digit_val_def numeral_2_eq_2)
qed

text \<open>
  Claim C7 says that the handler discards every message on a \<open>counter/\<close> topic that
  does not parse, without raising and with \<open>messages_received\<close> as it was. For a
  payload that decodes this holds (\<open>malformed_counter_message_discarded\<close>: every
  statement that can raise comes before the first store, and \<open>except Exception\<close> ends
  the handler normally), and a counter message changes the stream by one whole entry
  or not at all (\<open>counter_message_all_or_nothing\<close>). But the payload is decoded before
  the \<open>try\<close>: on a payload that is not UTF-8, here the single byte \<open>0xFF\<close>, the
  handler raises \<open>UnicodeDecodeError\<close>, in every state and with the state unchanged.
\<close>

theorem undecodable_payload_raises:
  "analyzer_on_message int_of float_of a
     \<lparr>topic = ''counter/1/0/0/0'', payload = [char_of (255 :: nat)]\<rparr>
   = (a, Some UnicodeDecodeError)"
  by (simp add: analyzer_on_message_def utf8_invalid_ff)

section \<open>Properties of the publisher\<close>

subsection \<open>The data messages\<close>





















subsection \<open>Activation\<close>








end
